theory Spec2Isabelle
  imports Main "HOL-Library.Char_ord" "HOL-Library.Sublist"
begin

section \<open>Python regular expressions, as far as the validator uses them\<close>

text \<open>
  The validator of \<^verbatim>\<open>bids/layout/bids_validator.py\<close> decides every question with
  \<^verbatim>\<open>re.compile(...)\<close>, \<^verbatim>\<open>.search(path)\<close> and \<^verbatim>\<open>.findall(path)\<close>. This section
  embeds the part of Python's \<^verbatim>\<open>re\<close> module those calls reach: the pattern
  syntax (parsed from the pattern text, so that the patterns below are the source's own
  strings), the backtracking matcher with capture groups and backreferences, and the two
  search operations. Paths and patterns are \<^typ>\<open>string\<close>s.
\<close>

datatype error = ReError | IndexError | TypeError | Unmodelled

text \<open>
  \<open>ReError\<close> is Python's \<^verbatim>\<open>re.error\<close>, raised by \<^verbatim>\<open>re.compile\<close> on a malformed
  pattern. \<open>Unmodelled\<close> is returned for pattern syntax outside the fragment embedded
  here; no pattern of the validator produces it.
\<close>

definition bind_res :: "error + 'a \<Rightarrow> ('a \<Rightarrow> error + 'b) \<Rightarrow> error + 'b" where
  "bind_res m f = (case m of Inl e \<Rightarrow> Inl e | Inr x \<Rightarrow> f x)"

abbreviation bs :: char where
  "bs \<equiv> CHR 0x5C"

abbreviation newline :: char where
  "newline \<equiv> CHR 0x0A"

subsection \<open>Syntax trees\<close>

datatype cset = AnyChar | Ranges "(char \<times> char) list"

fun in_cset :: "cset \<Rightarrow> char \<Rightarrow> bool" where
  "in_cset AnyChar c = (c \<noteq> newline)"
| "in_cset (Ranges rs) c = list_ex (\<lambda>(lo, hi). lo \<le> c \<and> c \<le> hi) rs"

text \<open>
  \<open>AnyChar\<close> is the dot (no \<^verbatim>\<open>DOTALL\<close> flag: every character but the newline),
  \<open>Ranges\<close> a bracketed class such as \<^verbatim>\<open>[a-zA-Z0-9]\<close>. \<open>Rep cs m\<close> is the greedy
  repetition of a one-character item, at least \<open>m\<close> times (\<^verbatim>\<open>*\<close> and \<^verbatim>\<open>+\<close>);
  \<open>Opt\<close> is the greedy \<^verbatim>\<open>?\<close>; \<open>Grp i\<close> is the capturing group number \<open>i\<close> and
  \<open>Ref i\<close> the backreference \<^verbatim>\<open>\i\<close>; \<open>Bol\<close> and \<open>Eol\<close> are \<^verbatim>\<open>^\<close> and \<^verbatim>\<open>$\<close>.
\<close>

datatype regex =
    Eps
  | Bol
  | Eol
  | Lit string
  | One cset
  | Rep cset nat
  | Opt regex
  | Seq regex regex
  | Alt regex regex
  | Grp nat regex
  | Ref nat

record pattern =
  ast :: regex
  groups :: nat

subsection \<open>Parsing a pattern\<close>

fun seq_cons :: "regex \<Rightarrow> regex \<Rightarrow> regex" where
  "seq_cons x Eps = x"
| "seq_cons (Lit a) (Lit b) = Lit (a @ b)"
| "seq_cons (Lit a) (Seq (Lit b) r) = Seq (Lit (a @ b)) r"
| "seq_cons x r = Seq x r"

definition mk_seq :: "regex list \<Rightarrow> regex" where
  "mk_seq items = foldr seq_cons items Eps"

fun mk_alt :: "regex list \<Rightarrow> regex" where
  "mk_alt [] = Eps"
| "mk_alt [r] = r"
| "mk_alt (r # rs) = Alt r (mk_alt rs)"

text \<open>
  A frame is a group that is still open: its number (\<open>None\<close> for \<^verbatim>\<open>(?:\<close> and for the
  whole pattern), its finished alternatives and the items of the alternative being read,
  both latest first.
\<close>

type_synonym frame = "nat option \<times> regex list \<times> regex list"

definition close_frame :: "frame \<Rightarrow> regex" where
  "close_frame f =
     (case f of (g, alts, items) \<Rightarrow>
        (let body = mk_alt (rev (mk_seq (rev items) # alts))
         in (case g of None \<Rightarrow> body | Some i \<Rightarrow> Grp i body)))"

fun class_items :: "string \<Rightarrow> (char \<times> char) list option" where
  "class_items (lo # d # hi # r) =
     (if d = CHR ''-'' then
        (if lo \<le> hi then map_option (\<lambda>rs. (lo, hi) # rs) (class_items r) else None)
      else map_option (\<lambda>rs. (lo, lo) # rs) (class_items (d # hi # r)))"
| "class_items (c # r) = map_option (\<lambda>rs. (c, c) # rs) (class_items r)"
| "class_items [] = Some []"

definition is_digit :: "char \<Rightarrow> bool" where
  "is_digit c = (CHR ''0'' \<le> c \<and> c \<le> CHR ''9'')"

definition is_alpha :: "char \<Rightarrow> bool" where
  "is_alpha c = ((CHR ''a'' \<le> c \<and> c \<le> CHR ''z'') \<or> (CHR ''A'' \<le> c \<and> c \<le> CHR ''Z''))"

definition digit_val :: "char \<Rightarrow> nat" where
  "digit_val c = of_char c - of_char (CHR ''0'')"

text \<open>
  One pass over the pattern text with a stack of open groups. The arguments are the
  frame being read, the frames around it, the number of capturing groups opened so far,
  whether the latest item may take a quantifier, and the text left.
\<close>

fun parse :: "frame \<Rightarrow> frame list \<Rightarrow> nat \<Rightarrow> bool \<Rightarrow> string \<Rightarrow> error + (regex \<times> nat)" where
  "parse (g, alts, items) stack n q [] =
     (if stack = [] then Inr (close_frame (g, alts, items), n) else Inl ReError)"
| "parse (g, alts, items) stack n q (c # cs) =
     (if c = CHR ''('' then
        (if take 2 cs = ''?:'' then
           parse (None, [], []) ((g, alts, items) # stack) n False (drop 2 cs)
         else if take 1 cs = ''?'' then Inl Unmodelled
         else parse (Some (Suc n), [], []) ((g, alts, items) # stack) (Suc n) False cs)
      else if c = CHR '')'' then
        (case stack of
           [] \<Rightarrow> Inl ReError
         | (g', alts', items') # stack' \<Rightarrow>
             parse (g', alts', close_frame (g, alts, items) # items') stack' n True cs)
      else if c = CHR ''|'' then
        parse (g, mk_seq (rev items) # alts, []) stack n False cs
      else if c = CHR ''?'' then
        (case items of
           [] \<Rightarrow> Inl ReError
         | x # items' \<Rightarrow>
             if q then parse (g, alts, Opt x # items') stack n False cs else Inl Unmodelled)
      else if c = CHR ''+'' \<or> c = CHR ''*'' then
        (case items of
           [] \<Rightarrow> Inl ReError
         | One s # items' \<Rightarrow>
             if q then
               parse (g, alts, Rep s (if c = CHR ''+'' then 1 else 0) # items') stack n False cs
             else Inl Unmodelled
         | _ # _ \<Rightarrow> Inl Unmodelled)
      else if c = CHR ''.'' then parse (g, alts, One AnyChar # items) stack n True cs
      else if c = CHR ''^'' then parse (g, alts, Bol # items) stack n False cs
      else if c = CHR ''$'' then parse (g, alts, Eol # items) stack n False cs
      else if c = bs then
        (case cs of
           [] \<Rightarrow> Inl ReError
         | d # cs' \<Rightarrow>
             if is_digit d then
               (if d = CHR ''0'' \<or> (case cs' of [] \<Rightarrow> False | e # _ \<Rightarrow> is_digit e) then
                  Inl Unmodelled
                else if digit_val d \<le> n
                        \<and> Some (digit_val d) \<notin> set (map fst ((g, alts, items) # stack)) then
                  parse (g, alts, Ref (digit_val d) # items) stack n True cs'
                else Inl ReError)
             else if is_alpha d then Inl Unmodelled
             else parse (g, alts, Lit [d] # items) stack n True cs')
      else if c = CHR ''['' then
        (let body = takeWhile (\<lambda>x. x \<noteq> CHR '']'') cs in
         if length body = length cs then Inl ReError
         else if body = [] \<or> list_ex (\<lambda>x. x = bs \<or> x = CHR ''['' \<or> x = CHR ''^'') body then
           Inl Unmodelled
         else
           (case class_items body of
              None \<Rightarrow> Inl ReError
            | Some rs \<Rightarrow>
                parse (g, alts, One (Ranges rs) # items) stack n True
                  (drop (Suc (length body)) cs)))
      else if c = CHR ''{'' then Inl Unmodelled
      else parse (g, alts, Lit [c] # items) stack n True cs)"

definition re_compile :: "string \<Rightarrow> error + pattern" where
  "re_compile p =
     (case parse (None, [], []) [] 0 False p of
        Inl e \<Rightarrow> Inl e
      | Inr (r, n) \<Rightarrow> Inr \<lparr>ast = r, groups = n\<rparr>)"

subsection \<open>Matching\<close>

text \<open>
  A matcher state is the text not yet consumed and the groups captured so far. \<open>ms n r st\<close>
  lists, in the order in which Python's backtracking matcher tries them, the states in
  which \<open>r\<close> can finish when started in \<open>st\<close>; \<open>n\<close> is the length of the whole subject
  string, which \<^verbatim>\<open>^\<close> needs. The first element is the match Python reports. \<^verbatim>\<open>$\<close>
  matches at the end of the subject and before a newline that ends it.
\<close>

type_synonym mstate = "string \<times> (nat \<rightharpoonup> string)"

fun strip_prefix :: "string \<Rightarrow> string \<Rightarrow> string option" where
  "strip_prefix [] s = Some s"
| "strip_prefix (c # w) [] = None"
| "strip_prefix (c # w) (d # s) = (if c = d then strip_prefix w s else None)"

fun ms :: "nat \<Rightarrow> regex \<Rightarrow> mstate \<Rightarrow> mstate list" where
  "ms n Eps st = [st]"
| "ms n Bol (s, g) = (if length s = n then [(s, g)] else [])"
| "ms n Eol (s, g) = (if s = [] \<or> s = [newline] then [(s, g)] else [])"
| "ms n (Lit w) (s, g) = (case strip_prefix w s of None \<Rightarrow> [] | Some s' \<Rightarrow> [(s', g)])"
| "ms n (One cs) (s, g) =
     (case s of [] \<Rightarrow> [] | c # s' \<Rightarrow> if in_cset cs c then [(s', g)] else [])"
| "ms n (Rep cs m) (s, g) =
     map (\<lambda>k. (drop k s, g)) (rev [m ..< Suc (length (takeWhile (in_cset cs) s))])"
| "ms n (Opt r) st = ms n r st @ [st]"
| "ms n (Seq a b) st = concat (map (ms n b) (ms n a st))"
| "ms n (Alt a b) st = ms n a st @ ms n b st"
| "ms n (Grp i r) (s, g) =
     map (\<lambda>(s', g'). (s', g'(i \<mapsto> take (length s - length s') s))) (ms n r (s, g))"
| "ms n (Ref i) (s, g) =
     (case g i of
        None \<Rightarrow> []
      | Some w \<Rightarrow> (case strip_prefix w s of None \<Rightarrow> [] | Some s' \<Rightarrow> [(s', g)]))"

text \<open>
  \<open>search_from\<close> tries the start positions from left to right, \<open>t\<close> being the subject
  from the position tried. With \<open>adv\<close> set, an empty match at the first position is not
  taken: \<^verbatim>\<open>findall\<close> asks for that after an empty match.
\<close>

fun search_from :: "regex \<Rightarrow> nat \<Rightarrow> bool \<Rightarrow> string \<Rightarrow> (string \<times> mstate) option" where
  "search_from r n adv [] =
     (case filter (\<lambda>x. \<not> (adv \<and> length (fst x) = 0)) (ms n r ([], Map.empty)) of
        x # _ \<Rightarrow> Some ([], x)
      | [] \<Rightarrow> None)"
| "search_from r n adv (c # t) =
     (case filter (\<lambda>x. \<not> (adv \<and> length (fst x) = length (c # t))) (ms n r (c # t, Map.empty)) of
        x # _ \<Rightarrow> Some (c # t, x)
      | [] \<Rightarrow> search_from r n False t)"

definition search :: "pattern \<Rightarrow> string \<Rightarrow> (string \<times> mstate) option" where
  "search p s = search_from (ast p) (length s) False s"

text \<open>
  \<^verbatim>\<open>findall\<close> returns one item for each match: the tuple of all groups when the pattern
  has several, the group when it has one, the matched text when it has none. A group
  that took no part in the match is the empty string.
\<close>

datatype item = Str string | Tuple "string list"

definition group_text :: "mstate \<Rightarrow> nat \<Rightarrow> string" where
  "group_text x i = (case snd x i of None \<Rightarrow> [] | Some w \<Rightarrow> w)"

definition item_of :: "nat \<Rightarrow> string \<Rightarrow> mstate \<Rightarrow> item" where
  "item_of k t x =
     (if k = 0 then Str (take (length t - length (fst x)) t)
      else if k = 1 then Str (group_text x 1)
      else Tuple (map (group_text x) [1 ..< Suc k]))"

function findall_from :: "pattern \<Rightarrow> nat \<Rightarrow> bool \<Rightarrow> string \<Rightarrow> item list" where
  "findall_from p n adv t =
     (case search_from (ast p) n adv t of
        None \<Rightarrow> []
      | Some (t', x) \<Rightarrow>
          item_of (groups p) t' x #
            (if length (fst x) < length t then findall_from p n False (fst x)
             else if \<not> adv \<and> length (fst x) = length t then findall_from p n True t
             else []))"
  by pat_completeness auto
termination
  by (relation "measure (\<lambda>(p, n, adv, t). 2 * length t + (if adv then 0 else 1))") auto

definition findall :: "pattern \<Rightarrow> string \<Rightarrow> item list" where
  "findall p s = findall_from p (length s) False s"

section \<open>The validator\<close>

text \<open>
  \<^verbatim>\<open>class BIDSValidator\<close>: the object holds the list of anatomical suffixes and the
  flag given to the constructor. No method assigns to an attribute, so a method is a
  function of the object and the path; it returns \<open>Inl\<close> where Python raises.
\<close>

record validator =
  anat_suffixes :: "string list"
  index_associated :: bool

definition BIDSValidator :: "bool \<Rightarrow> validator" where
  "BIDSValidator index_associated' =
     \<lparr>anat_suffixes = [''T1w'', ''T2w'', ''T1map'', ''T2map'',
                       ''T1rho'', ''FLAIR'', ''PD'', ''PDT2'',
                       ''inplaneT1'', ''inplaneT2'', ''angio'',
                       ''defacemask'', ''SWImagandphase''],
      index_associated = index_associated'\<rparr>"

text \<open>\<^verbatim>\<open>sep.join(xs)\<close>\<close>

fun join :: "string \<Rightarrow> string list \<Rightarrow> string" where
  "join sep [] = []"
| "join sep [x] = x"
| "join sep (x # y # xs) = x @ sep @ join sep (y # xs)"

text \<open>
  \<^verbatim>\<open>conditional_match\<close> looks at the first item of \<^verbatim>\<open>findall\<close> only. For a tuple
  \<^verbatim>\<open>match[1]\<close> is the second group and \<^verbatim>\<open>match[2][1:]\<close> the third without its first
  character; an index out of range raises \<^verbatim>\<open>IndexError\<close>. (For a pattern with fewer
  than two groups the item is a string, of which \<^verbatim>\<open>match[1]\<close> is a character and
  \<^verbatim>\<open>match[2][1:]\<close> the empty string.)
\<close>

definition conditional_match :: "pattern \<Rightarrow> string \<Rightarrow> error + bool" where
  "conditional_match expression path =
     (case findall expression path of
        [] \<Rightarrow> Inr False
      | Str m # _ \<Rightarrow>
          if m = [] then Inr False
          else if length m < 3 then Inl IndexError
          else Inr False
      | Tuple m # _ \<Rightarrow>
          if length m < 3 then Inl IndexError
          else if (m ! 1 = drop 1 (m ! 2)) \<or> (m ! 1 = []) then Inr True
          else Inr False)"

text \<open>
  Each \<^verbatim>\<open>xxx_re = re.compile(...)\<close> of a method is a constant of its own here, named
  as the local variable is (with the method's name in front where two methods use the
  same name), so that statements can speak of the pattern of a rule. Its value is what
  \<^verbatim>\<open>re.compile\<close> returns or raises.
\<close>

definition func_top_re :: "error + pattern" where
  "func_top_re = re_compile
     (''^'' @ bs # ''/(?:ses-[a-zA-Z0-9]+_)?(?:recording-[a-zA-Z0-9]+_)?task-[a-zA-Z0-9]+(?:_acq-[a-zA-Z0-9]+)?(?:_rec-[a-zA-Z0-9]+)?(?:_run-[0-9]+)?(?:_echo-[0-9]+)?''
      @ ''(_bold.json|_sbref.json|_events.json|_events.tsv|_physio.json|_stim.json|_beh.json)$'')"

definition anat_top_re :: "validator \<Rightarrow> error + pattern" where
  "anat_top_re self = re_compile
     (''^'' @ bs # ''/(?:ses-[a-zA-Z0-9]+_)?(?:_acq-[a-zA-Z0-9]+)?(?:_rec-[a-zA-Z0-9]+)?(?:_run-[0-9]+_)?''
      @ ''('' @ join ''|'' (anat_suffixes self) @ '').json$'')"

definition dwi_top_re :: "error + pattern" where
  "dwi_top_re = re_compile
     (''^'' @ bs # ''/(?:ses-[a-zA-Z0-9]+)?(?:_acq-[a-zA-Z0-9]+)?(?:_rec-[a-zA-Z0-9]+)?(?:_run-[0-9]+)?(?:_)?''
      @ ''dwi.(?:json|bval|bvec)$'')"

definition multi_dir_fieldmap_re :: "error + pattern" where
  "multi_dir_fieldmap_re = re_compile
     (''^'' @ bs # ''/(?:dir-[a-zA-Z0-9]+)_epi.json$'')"

definition other_top_files_re :: "error + pattern" where
  "other_top_files_re = re_compile
     (''^'' @ bs # ''/(?:ses-[a-zA-Z0-9]+_)?(?:recording-[a-zA-Z0-9]+)?(?:task-[a-zA-Z0-9]+_)?(?:_acq-[a-zA-Z0-9]+)?(?:_rec-[a-zA-Z0-9]+)?(?:_run-[0-9]+)?''
      @ ''(_physio.json|_stim.json)$'')"

definition is_top_level :: "validator \<Rightarrow> string \<Rightarrow> error + bool" where
  "is_top_level self path =
     (let fixed_top_level_names =
            [''/README'', ''/CHANGES'', ''/dataset_description.json'', ''/participants.tsv'',
             ''/participants.json'', ''/phasediff.json'', ''/phase1.json'', ''/phase2.json'',
             ''/fieldmap.json'']
      in
      bind_res func_top_re (\<lambda>func_top_re.
      let func_top_flag = (if search func_top_re path = None then False else True) in
      bind_res (anat_top_re self) (\<lambda>anat_top_re.
      let anat_top_flag = (if search anat_top_re path = None then False else True) in
      bind_res dwi_top_re (\<lambda>dwi_top_re.
      let dwi_top_flag = (if search dwi_top_re path = None then False else True) in
      bind_res multi_dir_fieldmap_re (\<lambda>multi_dir_fieldmap_re.
      let multi_dir_fieldmap_flag =
            (if search multi_dir_fieldmap_re path = None then False else True) in
      bind_res other_top_files_re (\<lambda>other_top_files_re.
      let other_top_files_flag =
            (if search other_top_files_re path = None then False else True);
          check_index = (path \<in> set fixed_top_level_names)
      in Inr (check_index \<or>
              func_top_flag \<or> anat_top_flag \<or>
              dwi_top_flag \<or> multi_dir_fieldmap_flag \<or> other_top_files_flag)))))))"

definition associated_data_re :: "error + pattern" where
  "associated_data_re = re_compile
     (''^'' @ bs # ''/(?:code|derivatives|sourcedata|stimuli)'' @ bs # ''/(?:.*)$'')"

definition is_associated_data :: "validator \<Rightarrow> string \<Rightarrow> error + bool" where
  "is_associated_data self path =
     (if \<not> index_associated self then Inr False
      else
        bind_res associated_data_re (\<lambda>associated_data_re.
        let associated_data_flag = search associated_data_re path
        in Inr (associated_data_flag \<noteq> None)))"

definition phenotypic_data :: "error + pattern" where
  "phenotypic_data = re_compile
     (''^'' @ bs # ''/(?:phenotype)'' @ bs # ''/(?:.*.tsv|.*.json)$'')"

definition is_phenotypic :: "validator \<Rightarrow> string \<Rightarrow> error + bool" where
  "is_phenotypic self path =
     bind_res phenotypic_data (\<lambda>phenotypic_data.
     Inr (search phenotypic_data path \<noteq> None))"

definition is_session_level_scans_re :: "error + pattern" where
  "is_session_level_scans_re = re_compile
     (''^'' @ bs # ''/(sub-[a-zA-Z0-9]+)'' @
        bs # ''/(?:(ses-[a-zA-Z0-9]+)'' @
        bs # ''/)?'' @ bs # ''1(_'' @ bs # ''2)?(_scans.tsv|_scans.json)$'')"

definition func_ses_re :: "error + pattern" where
  "func_ses_re = re_compile
     (''^'' @ bs # ''/(sub-[a-zA-Z0-9]+)'' @
        bs # ''/(?:(ses-[a-zA-Z0-9]+)'' @
        bs # ''/)?'' @ bs # ''1(_'' @ bs # ''2)?task-[a-zA-Z0-9]+(?:_acq-[a-zA-Z0-9]+)?(?:_rec-[a-zA-Z0-9]+)?(?:_run-[0-9]+)?(?:_echo-[0-9]+)?''
        @ ''(_bold.json|_sbref.json|_events.json|_events.tsv|_physio.json|_stim.json)$'')"

definition anat_ses_re :: "validator \<Rightarrow> error + pattern" where
  "anat_ses_re self = re_compile
     (''^'' @ bs # ''/(sub-[a-zA-Z0-9]+)'' @
        bs # ''/(?:(ses-[a-zA-Z0-9]+)'' @
        bs # ''/)?'' @ bs # ''1(_'' @ bs # ''2)?(?:_acq-[a-zA-Z0-9]+)?(?:_rec-[a-zA-Z0-9]+)?(?:_run-[0-9]+_)?''
        @ ''('' @ join ''|'' (anat_suffixes self) @ '').json$'')"

definition dwi_ses_re :: "error + pattern" where
  "dwi_ses_re = re_compile
     (''^'' @ bs # ''/(sub-[a-zA-Z0-9]+)'' @
        bs # ''/(?:(ses-[a-zA-Z0-9]+)'' @
        bs # ''/)?'' @ bs # ''1(_'' @ bs # ''2)?(?:_acq-[a-zA-Z0-9]+)?(?:_rec-[a-zA-Z0-9]+)?(?:_run-[0-9]+)?(?:_)?''
        @ ''dwi.(?:json|bval|bvec)$'')"

definition is_session_level :: "validator \<Rightarrow> string \<Rightarrow> error + bool" where
  "is_session_level self path =
     bind_res is_session_level_scans_re (\<lambda>scans_re.
     bind_res func_ses_re (\<lambda>func_ses_re.
     bind_res (anat_ses_re self) (\<lambda>anat_ses_re.
     bind_res dwi_ses_re (\<lambda>dwi_ses_re.
     bind_res (conditional_match scans_re path) (\<lambda>scans.
     bind_res (conditional_match func_ses_re path) (\<lambda>func_ses.
     bind_res (conditional_match anat_ses_re path) (\<lambda>anat_ses.
     bind_res (conditional_match dwi_ses_re path) (\<lambda>dwi_ses.
     Inr (scans \<or> func_ses \<or> anat_ses \<or> dwi_ses)))))))))"

definition is_subject_level_scans_re :: "error + pattern" where
  "is_subject_level_scans_re = re_compile
     (''^'' @ bs # ''/(sub-[a-zA-Z0-9]+)'' @
        bs # ''/'' @ bs # ''1(_sessions.tsv|_sessions.json)$'')"

definition is_subject_level :: "validator \<Rightarrow> string \<Rightarrow> error + bool" where
  "is_subject_level self path =
     bind_res is_subject_level_scans_re (\<lambda>scans_re.
     Inr (search scans_re path \<noteq> None))"

definition is_anat_anat_re :: "validator \<Rightarrow> error + pattern" where
  "is_anat_anat_re self = re_compile
     (''^'' @ bs # ''/(sub-[a-zA-Z0-9]+)'' @
        bs # ''/(?:(ses-[a-zA-Z0-9]+)'' @
        bs # ''/)?anat'' @
        bs # ''/'' @ bs # ''1(_'' @ bs # ''2)?(?:_acq-[a-zA-Z0-9]+)?(?:_rec-[a-zA-Z0-9]+)?(?:_run-[0-9]+)?_(?:''
        @ join ''|'' (anat_suffixes self)
        @ '').(nii.gz|nii|json)$'')"

definition is_anat :: "validator \<Rightarrow> string \<Rightarrow> error + bool" where
  "is_anat self path =
     bind_res (is_anat_anat_re self) (\<lambda>anat_re. conditional_match anat_re path)"

definition is_dwi_anat_re :: "error + pattern" where
  "is_dwi_anat_re =
     (let suffixes = [''dwi'', ''sbref''] in
      re_compile
     (''^'' @ bs # ''/(sub-[a-zA-Z0-9]+)'' @
        bs # ''/(?:(ses-[a-zA-Z0-9]+)'' @
        bs # ''/)?dwi'' @
        bs # ''/'' @ bs # ''1(_'' @ bs # ''2)?(?:_acq-[a-zA-Z0-9]+)?(?:_rec-[a-zA-Z0-9]+)?(?:_run-[0-9]+)?_(?:''
        @ join ''|'' suffixes
        @ '').(nii.gz|nii|json|bvec|bval)$''))"

definition is_dwi :: "validator \<Rightarrow> string \<Rightarrow> error + bool" where
  "is_dwi self path =
     bind_res is_dwi_anat_re (\<lambda>anat_re. conditional_match anat_re path)"

definition is_field_map_anat_re :: "error + pattern" where
  "is_field_map_anat_re =
     (let suffixes = [''phasediff'', ''phase1'', ''phase2'', ''magnitude1'',
                      ''magnitude2'', ''magnitude'', ''fieldmap'', ''epi''] in
      re_compile
     (''^'' @ bs # ''/(sub-[a-zA-Z0-9]+)'' @
        bs # ''/(?:(ses-[a-zA-Z0-9]+)'' @
        bs # ''/)?fmap'' @
        bs # ''/'' @ bs # ''1(_'' @ bs # ''2)?(?:_acq-[a-zA-Z0-9]+)?(?:_rec-[a-zA-Z0-9]+)?(?:_dir-[a-zA-Z0-9]+)?(?:_run-[0-9]+)?_(?:''
        @ join ''|'' suffixes
        @ '').(nii.gz|nii|json)$''))"

definition is_field_map :: "validator \<Rightarrow> string \<Rightarrow> error + bool" where
  "is_field_map self path =
     bind_res is_field_map_anat_re (\<lambda>anat_re. conditional_match anat_re path)"

definition func_re :: "error + pattern" where
  "func_re = re_compile
     (''^'' @ bs # ''/(sub-[a-zA-Z0-9]+)'' @
        bs # ''/(?:(ses-[a-zA-Z0-9]+)'' @
        bs # ''/)?func'' @
        bs # ''/'' @ bs # ''1(_'' @ bs # ''2)?_task-[a-zA-Z0-9]+(?:_acq-[a-zA-Z0-9]+)?(?:_rec-[a-zA-Z0-9]+)?(?:_run-[0-9]+)?(?:_echo-[0-9]+)?''
        @ ''(?:_bold.nii.gz|_bold.nii|_bold.json|_sbref.nii.gz|_sbref.json|_events.json|_events.tsv|_physio.tsv.gz|_stim.tsv.gz|_physio.json|_stim.json|_defacemask.nii.gz|_defacemask.nii)$'')"

definition is_func :: "validator \<Rightarrow> string \<Rightarrow> error + bool" where
  "is_func self path =
     bind_res func_re (\<lambda>func_re. conditional_match func_re path)"

definition func_beh :: "error + pattern" where
  "func_beh = re_compile
     (''^'' @ bs # ''/(sub-[a-zA-Z0-9]+)'' @
        bs # ''/(?:(ses-[a-zA-Z0-9]+)'' @
        bs # ''/)?beh'' @
        bs # ''/'' @ bs # ''1(_'' @ bs # ''2)?_task-[a-zA-Z0-9]+(?:_acq-[a-zA-Z0-9]+)?(?:_rec-[a-zA-Z0-9]+)?(?:_run-[0-9]+)?''
        @ ''(?:_beh.json|_events.json|_events.tsv|_physio.tsv.gz|_stim.tsv.gz|_physio.json|_stim.json)$'')"

definition is_behavioral :: "validator \<Rightarrow> string \<Rightarrow> error + bool" where
  "is_behavioral self path =
     bind_res func_beh (\<lambda>func_beh. conditional_match func_beh path)"

definition cont_re :: "error + pattern" where
  "cont_re = re_compile
     (''^'' @ bs # ''/(sub-[a-zA-Z0-9]+)'' @
        bs # ''/(?:(ses-[a-zA-Z0-9]+)'' @
        bs # ''/)?(?:func|beh)'' @
        bs # ''/'' @ bs # ''1(_'' @ bs # ''2)?_task-[a-zA-Z0-9]+(?:_acq-[a-zA-Z0-9]+)?(?:_rec-[a-zA-Z0-9]+)?(?:_run-[0-9]+)?'' @
        ''(?:_recording-[a-zA-Z0-9]+)?''
        @ ''(?:_physio.tsv.gz|_stim.tsv.gz|_physio.json|_stim.json)$'')"

definition is_cont :: "validator \<Rightarrow> string \<Rightarrow> error + bool" where
  "is_cont self path =
     bind_res cont_re (\<lambda>cont_re. conditional_match cont_re path)"

text \<open>
  \<^verbatim>\<open>is_bids\<close> joins the eleven results with \<^verbatim>\<open>|\<close>, which evaluates every operand,
  from left to right.
\<close>

definition is_bids :: "validator \<Rightarrow> string \<Rightarrow> error + bool" where
  "is_bids self path =
     bind_res (is_top_level self path) (\<lambda>top_level.
     bind_res (is_associated_data self path) (\<lambda>associated_data.
     bind_res (is_session_level self path) (\<lambda>session_level.
     bind_res (is_subject_level self path) (\<lambda>subject_level.
     bind_res (is_anat self path) (\<lambda>anat.
     bind_res (is_dwi self path) (\<lambda>dwi.
     bind_res (is_func self path) (\<lambda>func.
     bind_res (is_behavioral self path) (\<lambda>behavioral.
     bind_res (is_cont self path) (\<lambda>cont.
     bind_res (is_field_map self path) (\<lambda>field_map.
     bind_res (is_phenotypic self path) (\<lambda>phenotypic.
     Inr (top_level \<or>
          associated_data \<or>
          session_level \<or>
          subject_level \<or>
          anat \<or>
          dwi \<or>
          func \<or>
          behavioral \<or>
          cont \<or>
          field_map \<or>
          phenotypic))))))))))))"

text \<open>
  \<^verbatim>\<open>get_path_values\<close>. The value stored under each key is
  \<^verbatim>\<open>match[1] if match & match[1] else None\<close>. Its condition indexes the list first
  (\<^verbatim>\<open>IndexError\<close> with fewer than two matches) and then applies \<^verbatim>\<open>&\<close> to a list and
  a string, which no Python type supports (\<^verbatim>\<open>TypeError\<close>): the expression has no
  value for any list.
\<close>

definition match_value :: "item list \<Rightarrow> error + string option" where
  "match_value match = (if length match < 2 then Inl IndexError else Inl TypeError)"

definition get_path_values :: "validator \<Rightarrow> string \<Rightarrow> error + (string \<rightharpoonup> string option)" where
  "get_path_values self path =
     (let values = Map.empty in
      bind_res (re_compile (''/^'' @ bs # ''/sub-([a-zA-Z0-9]+)/)'')) (\<lambda>sub_re.
      let match = findall sub_re path in
      bind_res (match_value match) (\<lambda>sub_value.
      let values = values(''sub'' \<mapsto> sub_value) in
      bind_res (re_compile
        (''/^'' @ bs # ''/sub-[a-zA-Z0-9]+'' @ bs # ''/ses-([a-zA-Z0-9]+)/'')) (\<lambda>ses_re.
      let match = findall ses_re path in
      bind_res (match_value match) (\<lambda>ses_value.
      let values = values(''ses'' \<mapsto> ses_value) in
      Inr values)))))"

section \<open>Calls on the validator object\<close>

text \<open>
  A method of a Python object gets the object itself and may assign to its attributes, so
  that a later call finds another object. To state that the methods of the validator do
  not, they are given a second time, as calls: a call takes the object as it is and
  returns its result together with the object as the call leaves it.
  \<open>expression e\<close> is a piece of a method body that reads the object and holds neither an
  assignment to an attribute nor a call on the object (the only assignments to attributes
  in the class are those of \<^verbatim>\<open>__init__\<close>). \<open>then_call c f\<close> runs the call \<open>c\<close> and then
  \<open>f\<close> on its result and on the object that \<open>c\<close> has left; it stops where \<open>c\<close> raises.
  The methods that call no other method are one expression each; the others call
  \<^verbatim>\<open>self.conditional_match\<close> or, for \<^verbatim>\<open>is_bids\<close>, the eleven rules, in the order of
  the source.
\<close>

type_synonym 'a call = "validator \<Rightarrow> (error + 'a) \<times> validator"

definition expression :: "(validator \<Rightarrow> error + 'a) \<Rightarrow> 'a call" where
  "expression e self = (e self, self)"















section \<open>Vocabulary of the statements\<close>

text \<open>
  The character classes \<^verbatim>\<open>[a-zA-Z0-9]\<close> and \<^verbatim>\<open>[0-9]\<close>, and the two pieces that
  the patterns of the rules below a subject directory share: \<open>two_level r\<close> is
  \<^verbatim>\<open>^\/(sub-[a-zA-Z0-9]+)\/(?:(ses-[a-zA-Z0-9]+)\/)?\<close> followed by \<open>r\<close>, and
  \<open>ses_ref\<close> is \<^verbatim>\<open>(_\2)?\<close>. The lemmas of the section on compiled patterns show
  that the patterns of the source parse to these trees.
\<close>

definition alnum :: cset where
  "alnum = Ranges [(CHR ''a'', CHR ''z''), (CHR ''A'', CHR ''Z''), (CHR ''0'', CHR ''9'')]"

definition digits :: cset where
  "digits = Ranges [(CHR ''0'', CHR ''9'')]"

definition ses_ref :: regex where
  "ses_ref = Opt (Grp 3 (Seq (Lit ''_'') (Ref 2)))"

definition two_level :: "regex \<Rightarrow> regex" where
  "two_level r =
     Seq Bol
      (Seq (Lit ''/'')
       (Seq (Grp 1 (Seq (Lit ''sub-'') (Rep alnum 1)))
        (Seq (Lit ''/'')
         (Seq (Opt (Seq (Grp 2 (Seq (Lit ''ses-'') (Rep alnum 1))) (Lit ''/''))) r))))"

text \<open>The numbers of the capturing groups of a tree.\<close>

fun grps :: "regex \<Rightarrow> nat set" where
  "grps (Grp i r) = insert i (grps r)"
| "grps (Seq a b) = grps a \<union> grps b"
| "grps (Alt a b) = grps a \<union> grps b"
| "grps (Opt r) = grps r"
| "grps _ = {}"

text \<open>A label: one or more characters of \<^verbatim>\<open>[a-zA-Z0-9]\<close>.\<close>

definition label :: "string \<Rightarrow> bool" where
  "label w = (w \<noteq> [] \<and> list_all (in_cset alnum) w)"

text \<open>A task token somewhere in a file name: \<^verbatim>\<open>task-\<close> and an alphanumeric character.\<close>

fun has_task_token :: "string \<Rightarrow> bool" where
  "has_task_token [] = False"
| "has_task_token (c # cs) =
     ((case strip_prefix ''task-'' (c # cs) of
         Some (d # _) \<Rightarrow> in_cset alnum d
       | _ \<Rightarrow> False)
      \<or> has_task_token cs)"

text \<open>
  What a successful search with the pattern of a rule below a subject directory says
  about the path and the groups: the path is the subject directory, an optional session
  directory, one of the directory names \<open>MD\<close>, and a file name that starts with the name
  of the subject directory; group 2 is the session directory, group 3 the session in the
  file name (with its underscore); \<open>T\<close> is the part of the pattern that reads the
  rest of the file name.
\<close>

definition two_level_match :: "string set \<Rightarrow> regex \<Rightarrow> string \<Rightarrow> mstate \<Rightarrow> bool" where
  "two_level_match MD T path x =
     (\<exists>lab sd md rest rest' g.
           path = ''/sub-'' @ lab @ ''/'' @ sd @ md @ ''sub-'' @ lab @ rest \<and> label lab \<and> md \<in> MD \<and>
           x \<in> set (ms (length path) T (rest', g)) \<and>
           (sd = [] \<and> snd x 2 = None \<and> snd x 3 = None \<and> rest' = rest
            \<or> (\<exists>s. label s \<and> sd = ''ses-'' @ s @ ''/'' \<and> snd x 2 = Some (''ses-'' @ s) \<and>
                  (snd x 3 = None \<and> rest' = rest
                   \<or> snd x 3 = Some (''_ses-'' @ s) \<and> rest = ''_ses-'' @ s @ rest'))))"

text \<open>
  A path that names its subject twice: in the subject directory and, after an optional
  session directory and an optional modality directory, at the start of the file name.
\<close>

definition subject_repeated :: "string \<Rightarrow> bool" where
  "subject_repeated path =
     (\<exists>lab ses md rest.
        path = ''/sub-'' @ lab @ ''/'' @ ses @ md @ ''sub-'' @ lab @ rest \<and> label lab \<and>
        (ses = [] \<or> (\<exists>s. label s \<and> ses = ''ses-'' @ s @ ''/'')) \<and>
        md \<in> {[], ''anat/'', ''dwi/'', ''func/'', ''beh/'', ''fmap/''})"

text \<open>
  The file name of a path (what follows its last slash), and the label of a token: the
  alphanumeric characters that follow the marker at the start of a text.
\<close>

definition file_name :: "string \<Rightarrow> string" where
  "file_name path = rev (takeWhile (\<lambda>c. c \<noteq> CHR ''/'') (rev path))"

definition token_label :: "string \<Rightarrow> string \<Rightarrow> string option" where
  "token_label marker s = map_option (takeWhile (in_cset alnum)) (strip_prefix marker s)"

section \<open>The matcher, as a relation\<close>

text \<open>
  Membership in \<open>set (ms n r st)\<close> is the relation "\<open>r\<close> can take the matcher from \<open>st\<close>
  to \<open>x\<close>"; the lemmas below give it for each construct.
\<close>

lemma strip_prefix_Some: "strip_prefix w s = Some s' \<longleftrightarrow> s = w @ s'"
  by (induction w s rule: strip_prefix.induct) auto

lemma strip_prefix_None: "strip_prefix w s = None \<longleftrightarrow> (\<forall>s'. s \<noteq> w @ s')"
  by (induction w s rule: strip_prefix.induct) auto

lemma strip_prefix_append: "strip_prefix w (w @ s) = Some s"
  by (simp add: strip_prefix_Some)

lemma ms_Lit_iff: "x \<in> set (ms n (Lit w) (s, g)) \<longleftrightarrow> s = w @ fst x \<and> snd x = g"
proof (cases "strip_prefix w s")
  case None
  then have "ms n (Lit w) (s, g) = []" by simp
  moreover from None have "s \<noteq> w @ fst x" by (simp add: strip_prefix_None)
  ultimately show ?thesis by simp
next
  case (Some s')
  then have "s = w @ s'" by (simp add: strip_prefix_Some)
  with Some show ?thesis by (cases x) auto
qed

lemma ms_One_iff: "x \<in> set (ms n (One cs) (s, g)) \<longleftrightarrow> (\<exists>c. s = c # fst x \<and> in_cset cs c \<and> snd x = g)"
  by (cases x; cases s) auto

lemma takeWhile_prefix_len:
  "k \<le> length (takeWhile P s) \<longleftrightarrow> k \<le> length s \<and> (\<forall>c\<in>set (take k s). P c)"
proof (induction s arbitrary: k)
  case Nil
  then show ?case by simp
next
  case (Cons a s)
  then show ?case by (cases k) auto
qed

lemma ms_Rep_set:
  "set (ms n (Rep cs m) (s, g)) = (\<lambda>k. (drop k s, g)) ` {m .. length (takeWhile (in_cset cs) s)}"
  by (simp add: atLeastLessThanSuc_atLeastAtMost del: upt_Suc)

lemma ms_Rep_iff:
  "x \<in> set (ms n (Rep cs m) (s, g)) \<longleftrightarrow>
     (\<exists>w. s = w @ fst x \<and> m \<le> length w \<and> (\<forall>c\<in>set w. in_cset cs c) \<and> snd x = g)"
proof
  assume "x \<in> set (ms n (Rep cs m) (s, g))"
  then obtain k where k: "m \<le> k" "k \<le> length (takeWhile (in_cset cs) s)" "x = (drop k s, g)"
    unfolding ms_Rep_set by auto
  then have "s = take k s @ fst x" "m \<le> length (take k s)" "\<forall>c\<in>set (take k s). in_cset cs c"
    by (auto simp: takeWhile_prefix_len)
  with k show "\<exists>w. s = w @ fst x \<and> m \<le> length w \<and> (\<forall>c\<in>set w. in_cset cs c) \<and> snd x = g"
    by (metis snd_conv)
next
  assume "\<exists>w. s = w @ fst x \<and> m \<le> length w \<and> (\<forall>c\<in>set w. in_cset cs c) \<and> snd x = g"
  then obtain w where w: "s = w @ fst x" "m \<le> length w" "\<forall>c\<in>set w. in_cset cs c" "snd x = g"
    by blast
  then have "length w \<le> length (takeWhile (in_cset cs) s)"
    by (simp add: takeWhile_prefix_len)
  moreover have "x = (drop (length w) s, g)"
    using w by (cases x) simp
  ultimately show "x \<in> set (ms n (Rep cs m) (s, g))"
    unfolding ms_Rep_set using w(2) by (intro image_eqI[where x = "length w"]) auto
qed

lemma ms_Seq_iff: "x \<in> set (ms n (Seq a b) st) \<longleftrightarrow> (\<exists>y\<in>set (ms n a st). x \<in> set (ms n b y))"
  by auto

lemma ms_Alt_iff: "x \<in> set (ms n (Alt a b) st) \<longleftrightarrow> x \<in> set (ms n a st) \<or> x \<in> set (ms n b st)"
  by auto

lemma ms_Opt_iff: "x \<in> set (ms n (Opt r) st) \<longleftrightarrow> x \<in> set (ms n r st) \<or> x = st"
  by auto

lemma ms_Bol_iff: "x \<in> set (ms n Bol (s, g)) \<longleftrightarrow> length s = n \<and> x = (s, g)"
  by auto

lemma ms_Eol_iff: "x \<in> set (ms n Eol (s, g)) \<longleftrightarrow> (s = [] \<or> s = [newline]) \<and> x = (s, g)"
  by auto

lemma ms_Ref_iff: "x \<in> set (ms n (Ref i) (s, g)) \<longleftrightarrow> (\<exists>w. g i = Some w \<and> s = w @ fst x \<and> snd x = g)"
proof (cases "g i")
  case None
  then show ?thesis by simp
next
  case (Some w)
  then have "ms n (Ref i) (s, g) = ms n (Lit w) (s, g)" by simp
  with Some show ?thesis by (simp only: ms_Lit_iff) auto
qed


lemma ms_suffix: "x \<in> set (ms n r (s, g)) \<Longrightarrow> \<exists>w. s = w @ fst x"
proof (induction r arbitrary: s g x)
  case (Seq a b)
  then obtain y where y: "y \<in> set (ms n a (s, g))" "x \<in> set (ms n b y)" by auto
  from Seq.IH(1)[of y s g] y obtain w1 where "s = w1 @ fst y" by blast
  moreover from Seq.IH(2)[of x "fst y" "snd y"] y obtain w2 where "fst y = w2 @ fst x" by auto
  ultimately show ?case by (metis append.assoc)
next
  case (Grp i r)
  then obtain y where "y \<in> set (ms n r (s, g))" "fst x = fst y" by auto
  with Grp.IH[of y s g] show ?case by simp
next
  case (Rep cs m)
  then show ?case unfolding ms_Rep_iff by blast
next
  case (Lit w)
  then show ?case unfolding ms_Lit_iff by blast
next
  case (One cs)
  then show ?case unfolding ms_One_iff by (metis append_Cons append_Nil)
next
  case (Ref i)
  then show ?case unfolding ms_Ref_iff by blast
next
  case (Alt a b)
  then show ?case by (cases x) auto
next
  case (Opt r)
  then show ?case by (cases x) auto
qed (auto split: if_splits)

lemma ms_Grp_iff:
  "x \<in> set (ms n (Grp i r) (s, g)) \<longleftrightarrow>
     (\<exists>y\<in>set (ms n r (s, g)). \<exists>w. s = w @ fst y \<and> x = (fst y, (snd y)(i \<mapsto> w)))"
proof
  assume "x \<in> set (ms n (Grp i r) (s, g))"
  then obtain y where y: "y \<in> set (ms n r (s, g))"
    and x: "x = (fst y, (snd y)(i \<mapsto> take (length s - length (fst y)) s))"
    by (auto simp: split_beta)
  from ms_suffix[OF y] obtain w where "s = w @ fst y" by blast
  with x y show "\<exists>y\<in>set (ms n r (s, g)). \<exists>w. s = w @ fst y \<and> x = (fst y, (snd y)(i \<mapsto> w))"
    by (intro bexI[of _ y] exI[of _ w]) auto
next
  assume "\<exists>y\<in>set (ms n r (s, g)). \<exists>w. s = w @ fst y \<and> x = (fst y, (snd y)(i \<mapsto> w))"
  then obtain y w where y: "y \<in> set (ms n r (s, g))" and "s = w @ fst y"
    and "x = (fst y, (snd y)(i \<mapsto> w))" by blast
  then have "x = (\<lambda>(s', g'). (s', g'(i \<mapsto> take (length s - length s') s))) y"
    by (simp add: split_beta)
  with y show "x \<in> set (ms n (Grp i r) (s, g))" by (simp add: image_iff) blast
qed

lemma ms_caps_other: "x \<in> set (ms n r (s, g)) \<Longrightarrow> i \<notin> grps r \<Longrightarrow> snd x i = g i"
proof (induction r arbitrary: s g x)
  case (Seq a b)
  then obtain y where y: "y \<in> set (ms n a (s, g))" "x \<in> set (ms n b y)" by auto
  with Seq.IH(1)[of y s g] Seq.IH(2)[of x "fst y" "snd y"] Seq.prems show ?case by auto
next
  case (Grp j r)
  then obtain y where "y \<in> set (ms n r (s, g))" "snd x = (snd y)(j \<mapsto> take (length s - length (fst y)) s)"
    by (auto simp: split_beta)
  with Grp.IH[of y s g] Grp.prems show ?case by simp
next
  case (Alt a b)
  then show ?case by (cases x) auto
next
  case (Opt r)
  then show ?case by (cases x) auto
qed (auto split: if_splits option.splits list.splits)

lemma search_from_Some:
  "search_from r n adv t = Some (t', x) \<Longrightarrow> (\<exists>u. t = u @ t') \<and> x \<in> set (ms n r (t', Map.empty))"
proof (induction t arbitrary: adv)
  case Nil
  then show ?case
    by (auto split: list.splits) (metis filter_eq_ConsD in_set_conv_decomp)
next
  case (Cons c t)
  show ?case
  proof (cases "filter (\<lambda>x. \<not> (adv \<and> length (fst x) = length (c # t))) (ms n r (c # t, Map.empty))")
    case Nil
    with Cons.prems have "search_from r n False t = Some (t', x)" by simp
    from Cons.IH[OF this] show ?thesis by (metis append_Cons)
  next
    case (Cons y ys)
    with Cons.prems have "t' = c # t" "x = y" by auto
    moreover from Cons have "y \<in> set (ms n r (c # t, Map.empty))"
      by (metis filter_eq_ConsD in_set_conv_decomp)
    ultimately show ?thesis by auto
  qed
qed

lemma search_from_hit:
  "ms n r (t, Map.empty) = x # xs \<Longrightarrow> search_from r n False t = Some (t, x)"
  by (cases t) auto

text \<open>The same, with the states as pairs.\<close>

lemma ms_Seq_pair:
  "x \<in> set (ms n (Seq a b) st) \<longleftrightarrow> (\<exists>s' g'. (s', g') \<in> set (ms n a st) \<and> x \<in> set (ms n b (s', g')))"
  by auto

lemma ms_Lit_pair: "(s', g') \<in> set (ms n (Lit w) (s, g)) \<longleftrightarrow> s = w @ s' \<and> g' = g"
  by (simp only: ms_Lit_iff fst_conv snd_conv)

lemma ms_Rep_pair:
  "(s', g') \<in> set (ms n (Rep cs m) (s, g)) \<longleftrightarrow>
     (\<exists>w. s = w @ s' \<and> m \<le> length w \<and> list_all (in_cset cs) w \<and> g' = g)"
  by (simp only: ms_Rep_iff list_all_iff fst_conv snd_conv)

lemma ms_One_pair:
  "(s', g') \<in> set (ms n (One cs) (s, g)) \<longleftrightarrow> (\<exists>c. s = c # s' \<and> in_cset cs c \<and> g' = g)"
  by (simp only: ms_One_iff fst_conv snd_conv)

lemma ms_Ref_pair:
  "(s', g') \<in> set (ms n (Ref i) (s, g)) \<longleftrightarrow> (\<exists>w. g i = Some w \<and> s = w @ s' \<and> g' = g)"
  by (simp only: ms_Ref_iff fst_conv snd_conv)

lemma ms_Grp_pair:
  "(s', g') \<in> set (ms n (Grp i r) (s, g)) \<longleftrightarrow>
     (\<exists>g'' w. (s', g'') \<in> set (ms n r (s, g)) \<and> s = w @ s' \<and> g' = g''(i \<mapsto> w))"
  unfolding ms_Grp_iff by (auto intro: bexI[of _ "(s', g'')" for g''])

lemma ms_Bol_pair: "(s', g') \<in> set (ms n Bol (s, g)) \<longleftrightarrow> length s = n \<and> s' = s \<and> g' = g"
  by auto

lemma ms_Eol_pair:
  "(s', g') \<in> set (ms n Eol (s, g)) \<longleftrightarrow> (s = [] \<or> s = [newline]) \<and> s' = s \<and> g' = g"
  by auto

lemma ms_Opt_pair: "x \<in> set (ms n (Opt r) st) \<longleftrightarrow> x \<in> set (ms n r st) \<or> x = st"
  by auto

lemma ms_Alt_pair:
  "x \<in> set (ms n (Alt a b) st) \<longleftrightarrow> x \<in> set (ms n a st) \<or> x \<in> set (ms n b st)"
  by auto

lemmas ms_pair = ms_Seq_pair ms_Lit_pair ms_Rep_pair ms_One_pair ms_Ref_pair ms_Grp_pair
  ms_Bol_pair ms_Eol_pair ms_Opt_pair ms_Alt_pair

declare ms.simps [simp del]

section \<open>The compiled patterns\<close>

text \<open>What \<^verbatim>\<open>re.compile\<close> makes of each pattern of the validator.\<close>

lemma func_top_re_eq:
  "func_top_re =
     Inr \<lparr>ast =
          Seq Bol
           (Seq (Lit ''/'')
            (Seq (Opt (Seq (Lit ''ses-'') (Seq (Rep alnum 1) (Lit ''_''))))
             (Seq (Opt (Seq (Lit ''recording-'') (Seq (Rep alnum 1) (Lit ''_''))))
              (Seq (Lit ''task-'')
               (Seq (Rep alnum 1)
                (Seq (Opt (Seq (Lit ''_acq-'') (Rep alnum 1)))
                 (Seq (Opt (Seq (Lit ''_rec-'') (Rep alnum 1)))
                  (Seq (Opt (Seq (Lit ''_run-'') (Rep digits 1)))
                   (Seq (Opt (Seq (Lit ''_echo-'') (Rep digits 1)))
                    (Seq (Grp 1 (Alt (Seq (Lit ''_bold'') (Seq (One AnyChar) (Lit ''json'')))
                                (Alt (Seq (Lit ''_sbref'') (Seq (One AnyChar) (Lit ''json'')))
                                 (Alt (Seq (Lit ''_events'')
                                       (Seq (One AnyChar) (Lit ''json'')))
                                  (Alt (Seq (Lit ''_events'')
                                        (Seq (One AnyChar) (Lit ''tsv'')))
                                   (Alt (Seq (Lit ''_physio'')
                                         (Seq (One AnyChar) (Lit ''json'')))
                                    (Alt (Seq (Lit ''_stim'')
                                          (Seq (One AnyChar) (Lit ''json'')))
                                     (Seq (Lit ''_beh'') (Seq (One AnyChar) (Lit ''json''))))))))))
                     Eol)))))))))),
          groups = 1\<rparr>"
  by code_simp

lemma anat_top_re_eq:
  "anat_top_re (BIDSValidator ia) =
     Inr \<lparr>ast =
          Seq Bol
           (Seq (Lit ''/'')
            (Seq (Opt (Seq (Lit ''ses-'') (Seq (Rep alnum 1) (Lit ''_''))))
             (Seq (Opt (Seq (Lit ''_acq-'') (Rep alnum 1)))
              (Seq (Opt (Seq (Lit ''_rec-'') (Rep alnum 1)))
               (Seq (Opt (Seq (Lit ''_run-'') (Seq (Rep digits 1) (Lit ''_''))))
                (Seq (Grp 1 (Alt (Lit ''T1w'')
                            (Alt (Lit ''T2w'')
                             (Alt (Lit ''T1map'')
                              (Alt (Lit ''T2map'')
                               (Alt (Lit ''T1rho'')
                                (Alt (Lit ''FLAIR'')
                                 (Alt (Lit ''PD'')
                                  (Alt (Lit ''PDT2'')
                                   (Alt (Lit ''inplaneT1'')
                                    (Alt (Lit ''inplaneT2'')
                                     (Alt (Lit ''angio'')
                                      (Alt (Lit ''defacemask'') (Lit ''SWImagandphase''))))))))))))))
                 (Seq (One AnyChar) (Seq (Lit ''json'') Eol)))))))),
          groups = 1\<rparr>"
  unfolding BIDSValidator_def by code_simp

lemma dwi_top_re_eq:
  "dwi_top_re =
     Inr \<lparr>ast =
          Seq Bol
           (Seq (Lit ''/'')
            (Seq (Opt (Seq (Lit ''ses-'') (Rep alnum 1)))
             (Seq (Opt (Seq (Lit ''_acq-'') (Rep alnum 1)))
              (Seq (Opt (Seq (Lit ''_rec-'') (Rep alnum 1)))
               (Seq (Opt (Seq (Lit ''_run-'') (Rep digits 1)))
                (Seq (Opt (Lit ''_''))
                 (Seq (Lit ''dwi'')
                  (Seq (One AnyChar)
                   (Seq (Alt (Lit ''json'') (Alt (Lit ''bval'') (Lit ''bvec''))) Eol))))))))),
          groups = 0\<rparr>"
  by code_simp

lemma multi_dir_fieldmap_re_eq:
  "multi_dir_fieldmap_re =
     Inr \<lparr>ast =
          Seq Bol
           (Seq (Lit ''/'')
            (Seq (Seq (Lit ''dir-'') (Rep alnum 1))
             (Seq (Lit ''_epi'') (Seq (One AnyChar) (Seq (Lit ''json'') Eol))))),
          groups = 0\<rparr>"
  by code_simp

lemma other_top_files_re_eq:
  "other_top_files_re =
     Inr \<lparr>ast =
          Seq Bol
           (Seq (Lit ''/'')
            (Seq (Opt (Seq (Lit ''ses-'') (Seq (Rep alnum 1) (Lit ''_''))))
             (Seq (Opt (Seq (Lit ''recording-'') (Rep alnum 1)))
              (Seq (Opt (Seq (Lit ''task-'') (Seq (Rep alnum 1) (Lit ''_''))))
               (Seq (Opt (Seq (Lit ''_acq-'') (Rep alnum 1)))
                (Seq (Opt (Seq (Lit ''_rec-'') (Rep alnum 1)))
                 (Seq (Opt (Seq (Lit ''_run-'') (Rep digits 1)))
                  (Seq (Grp 1 (Alt (Seq (Lit ''_physio'') (Seq (One AnyChar) (Lit ''json'')))
                              (Seq (Lit ''_stim'') (Seq (One AnyChar) (Lit ''json'')))))
                   Eol)))))))),
          groups = 1\<rparr>"
  by code_simp

lemma associated_data_re_eq:
  "associated_data_re =
     Inr \<lparr>ast =
          Seq Bol
           (Seq (Lit ''/'')
            (Seq (Alt (Lit ''code'')
                  (Alt (Lit ''derivatives'') (Alt (Lit ''sourcedata'') (Lit ''stimuli''))))
             (Seq (Lit ''/'') (Seq (Rep AnyChar 0) Eol)))),
          groups = 0\<rparr>"
  by code_simp

lemma phenotypic_data_eq:
  "phenotypic_data =
     Inr \<lparr>ast =
          Seq Bol
           (Seq (Lit ''/phenotype/'')
            (Seq (Alt (Seq (Rep AnyChar 0) (Seq (One AnyChar) (Lit ''tsv'')))
                  (Seq (Rep AnyChar 0) (Seq (One AnyChar) (Lit ''json''))))
             Eol)),
          groups = 0\<rparr>"
  by code_simp

lemma is_session_level_scans_re_eq:
  "is_session_level_scans_re =
     Inr \<lparr>ast =
          two_level
            (Seq (Ref 1)
             (Seq ses_ref
              (Seq (Grp 4 (Alt (Seq (Lit ''_scans'') (Seq (One AnyChar) (Lit ''tsv'')))
                          (Seq (Lit ''_scans'') (Seq (One AnyChar) (Lit ''json'')))))
               Eol))),
          groups = 4\<rparr>"
  by code_simp

lemma func_ses_re_eq:
  "func_ses_re =
     Inr \<lparr>ast =
          two_level
            (Seq (Ref 1)
             (Seq ses_ref
              (Seq (Lit ''task-'')
               (Seq (Rep alnum 1)
                (Seq (Opt (Seq (Lit ''_acq-'') (Rep alnum 1)))
                 (Seq (Opt (Seq (Lit ''_rec-'') (Rep alnum 1)))
                  (Seq (Opt (Seq (Lit ''_run-'') (Rep digits 1)))
                   (Seq (Opt (Seq (Lit ''_echo-'') (Rep digits 1)))
                    (Seq (Grp 4 (Alt (Seq (Lit ''_bold'') (Seq (One AnyChar) (Lit ''json'')))
                                (Alt (Seq (Lit ''_sbref'') (Seq (One AnyChar) (Lit ''json'')))
                                 (Alt (Seq (Lit ''_events'')
                                       (Seq (One AnyChar) (Lit ''json'')))
                                  (Alt (Seq (Lit ''_events'')
                                        (Seq (One AnyChar) (Lit ''tsv'')))
                                   (Alt (Seq (Lit ''_physio'')
                                         (Seq (One AnyChar) (Lit ''json'')))
                                    (Seq (Lit ''_stim'') (Seq (One AnyChar) (Lit ''json'')))))))))
                     Eol))))))))),
          groups = 4\<rparr>"
  by code_simp

lemma anat_ses_re_eq:
  "anat_ses_re (BIDSValidator ia) =
     Inr \<lparr>ast =
          two_level
            (Seq (Ref 1)
             (Seq ses_ref
              (Seq (Opt (Seq (Lit ''_acq-'') (Rep alnum 1)))
               (Seq (Opt (Seq (Lit ''_rec-'') (Rep alnum 1)))
                (Seq (Opt (Seq (Lit ''_run-'') (Seq (Rep digits 1) (Lit ''_''))))
                 (Seq (Grp 4 (Alt (Lit ''T1w'')
                             (Alt (Lit ''T2w'')
                              (Alt (Lit ''T1map'')
                               (Alt (Lit ''T2map'')
                                (Alt (Lit ''T1rho'')
                                 (Alt (Lit ''FLAIR'')
                                  (Alt (Lit ''PD'')
                                   (Alt (Lit ''PDT2'')
                                    (Alt (Lit ''inplaneT1'')
                                     (Alt (Lit ''inplaneT2'')
                                      (Alt (Lit ''angio'')
                                       (Alt (Lit ''defacemask'') (Lit ''SWImagandphase''))))))))))))))
                  (Seq (One AnyChar) (Seq (Lit ''json'') Eol)))))))),
          groups = 4\<rparr>"
  unfolding BIDSValidator_def by code_simp

lemma dwi_ses_re_eq:
  "dwi_ses_re =
     Inr \<lparr>ast =
          two_level
            (Seq (Ref 1)
             (Seq ses_ref
              (Seq (Opt (Seq (Lit ''_acq-'') (Rep alnum 1)))
               (Seq (Opt (Seq (Lit ''_rec-'') (Rep alnum 1)))
                (Seq (Opt (Seq (Lit ''_run-'') (Rep digits 1)))
                 (Seq (Opt (Lit ''_''))
                  (Seq (Lit ''dwi'')
                   (Seq (One AnyChar)
                    (Seq (Alt (Lit ''json'') (Alt (Lit ''bval'') (Lit ''bvec''))) Eol))))))))),
          groups = 3\<rparr>"
  by code_simp

lemma is_subject_level_scans_re_eq:
  "is_subject_level_scans_re =
     Inr \<lparr>ast =
          Seq Bol
           (Seq (Lit ''/'')
            (Seq (Grp 1 (Seq (Lit ''sub-'') (Rep alnum 1)))
             (Seq (Lit ''/'')
              (Seq (Ref 1)
               (Seq (Grp 2 (Alt (Seq (Lit ''_sessions'') (Seq (One AnyChar) (Lit ''tsv'')))
                           (Seq (Lit ''_sessions'') (Seq (One AnyChar) (Lit ''json'')))))
                Eol))))),
          groups = 2\<rparr>"
  by code_simp

lemma is_anat_anat_re_eq:
  "is_anat_anat_re (BIDSValidator ia) =
     Inr \<lparr>ast =
          two_level
            (Seq (Lit ''anat/'')
             (Seq (Ref 1)
              (Seq ses_ref
               (Seq (Opt (Seq (Lit ''_acq-'') (Rep alnum 1)))
                (Seq (Opt (Seq (Lit ''_rec-'') (Rep alnum 1)))
                 (Seq (Opt (Seq (Lit ''_run-'') (Rep digits 1)))
                  (Seq (Lit ''_'')
                   (Seq (Alt (Lit ''T1w'')
                         (Alt (Lit ''T2w'')
                          (Alt (Lit ''T1map'')
                           (Alt (Lit ''T2map'')
                            (Alt (Lit ''T1rho'')
                             (Alt (Lit ''FLAIR'')
                              (Alt (Lit ''PD'')
                               (Alt (Lit ''PDT2'')
                                (Alt (Lit ''inplaneT1'')
                                 (Alt (Lit ''inplaneT2'')
                                  (Alt (Lit ''angio'')
                                   (Alt (Lit ''defacemask'') (Lit ''SWImagandphase'')))))))))))))
                    (Seq (One AnyChar)
                     (Seq (Grp 4 (Alt (Seq (Lit ''nii'') (Seq (One AnyChar) (Lit ''gz'')))
                                 (Alt (Lit ''nii'') (Lit ''json''))))
                      Eol)))))))))),
          groups = 4\<rparr>"
  unfolding BIDSValidator_def by code_simp

lemma is_dwi_anat_re_eq:
  "is_dwi_anat_re =
     Inr \<lparr>ast =
          two_level
            (Seq (Lit ''dwi/'')
             (Seq (Ref 1)
              (Seq ses_ref
               (Seq (Opt (Seq (Lit ''_acq-'') (Rep alnum 1)))
                (Seq (Opt (Seq (Lit ''_rec-'') (Rep alnum 1)))
                 (Seq (Opt (Seq (Lit ''_run-'') (Rep digits 1)))
                  (Seq (Lit ''_'')
                   (Seq (Alt (Lit ''dwi'') (Lit ''sbref''))
                    (Seq (One AnyChar)
                     (Seq (Grp 4 (Alt (Seq (Lit ''nii'') (Seq (One AnyChar) (Lit ''gz'')))
                                 (Alt (Lit ''nii'')
                                  (Alt (Lit ''json'') (Alt (Lit ''bvec'') (Lit ''bval''))))))
                      Eol)))))))))),
          groups = 4\<rparr>"
  by code_simp

lemma is_field_map_anat_re_eq:
  "is_field_map_anat_re =
     Inr \<lparr>ast =
          two_level
            (Seq (Lit ''fmap/'')
             (Seq (Ref 1)
              (Seq ses_ref
               (Seq (Opt (Seq (Lit ''_acq-'') (Rep alnum 1)))
                (Seq (Opt (Seq (Lit ''_rec-'') (Rep alnum 1)))
                 (Seq (Opt (Seq (Lit ''_dir-'') (Rep alnum 1)))
                  (Seq (Opt (Seq (Lit ''_run-'') (Rep digits 1)))
                   (Seq (Lit ''_'')
                    (Seq (Alt (Lit ''phasediff'')
                          (Alt (Lit ''phase1'')
                           (Alt (Lit ''phase2'')
                            (Alt (Lit ''magnitude1'')
                             (Alt (Lit ''magnitude2'')
                              (Alt (Lit ''magnitude'') (Alt (Lit ''fieldmap'') (Lit ''epi''))))))))
                     (Seq (One AnyChar)
                      (Seq (Grp 4 (Alt (Seq (Lit ''nii'') (Seq (One AnyChar) (Lit ''gz'')))
                                  (Alt (Lit ''nii'') (Lit ''json''))))
                       Eol))))))))))),
          groups = 4\<rparr>"
  by code_simp

lemma func_re_eq:
  "func_re =
     Inr \<lparr>ast =
          two_level
            (Seq (Lit ''func/'')
             (Seq (Ref 1)
              (Seq ses_ref
               (Seq (Lit ''_task-'')
                (Seq (Rep alnum 1)
                 (Seq (Opt (Seq (Lit ''_acq-'') (Rep alnum 1)))
                  (Seq (Opt (Seq (Lit ''_rec-'') (Rep alnum 1)))
                   (Seq (Opt (Seq (Lit ''_run-'') (Rep digits 1)))
                    (Seq (Opt (Seq (Lit ''_echo-'') (Rep digits 1)))
                     (Seq (Alt (Seq (Lit ''_bold'')
                                (Seq (One AnyChar)
                                 (Seq (Lit ''nii'') (Seq (One AnyChar) (Lit ''gz'')))))
                           (Alt (Seq (Lit ''_bold'') (Seq (One AnyChar) (Lit ''nii'')))
                            (Alt (Seq (Lit ''_bold'') (Seq (One AnyChar) (Lit ''json'')))
                             (Alt (Seq (Lit ''_sbref'')
                                   (Seq (One AnyChar)
                                    (Seq (Lit ''nii'') (Seq (One AnyChar) (Lit ''gz'')))))
                              (Alt (Seq (Lit ''_sbref'') (Seq (One AnyChar) (Lit ''json'')))
                               (Alt (Seq (Lit ''_events'') (Seq (One AnyChar) (Lit ''json'')))
                                (Alt (Seq (Lit ''_events'') (Seq (One AnyChar) (Lit ''tsv'')))
                                 (Alt (Seq (Lit ''_physio'')
                                       (Seq (One AnyChar)
                                        (Seq (Lit ''tsv'') (Seq (One AnyChar) (Lit ''gz'')))))
                                  (Alt (Seq (Lit ''_stim'')
                                        (Seq (One AnyChar)
                                         (Seq (Lit ''tsv'') (Seq (One AnyChar) (Lit ''gz'')))))
                                   (Alt (Seq (Lit ''_physio'')
                                         (Seq (One AnyChar) (Lit ''json'')))
                                    (Alt (Seq (Lit ''_stim'')
                                          (Seq (One AnyChar) (Lit ''json'')))
                                     (Alt (Seq (Lit ''_defacemask'')
                                           (Seq (One AnyChar)
                                            (Seq (Lit ''nii'')
                                             (Seq (One AnyChar) (Lit ''gz'')))))
                                      (Seq (Lit ''_defacemask'')
                                       (Seq (One AnyChar) (Lit ''nii'')))))))))))))))
                      Eol)))))))))),
          groups = 3\<rparr>"
  by code_simp

lemma func_beh_eq:
  "func_beh =
     Inr \<lparr>ast =
          two_level
            (Seq (Lit ''beh/'')
             (Seq (Ref 1)
              (Seq ses_ref
               (Seq (Lit ''_task-'')
                (Seq (Rep alnum 1)
                 (Seq (Opt (Seq (Lit ''_acq-'') (Rep alnum 1)))
                  (Seq (Opt (Seq (Lit ''_rec-'') (Rep alnum 1)))
                   (Seq (Opt (Seq (Lit ''_run-'') (Rep digits 1)))
                    (Seq (Alt (Seq (Lit ''_beh'') (Seq (One AnyChar) (Lit ''json'')))
                          (Alt (Seq (Lit ''_events'') (Seq (One AnyChar) (Lit ''json'')))
                           (Alt (Seq (Lit ''_events'') (Seq (One AnyChar) (Lit ''tsv'')))
                            (Alt (Seq (Lit ''_physio'')
                                  (Seq (One AnyChar)
                                   (Seq (Lit ''tsv'') (Seq (One AnyChar) (Lit ''gz'')))))
                             (Alt (Seq (Lit ''_stim'')
                                   (Seq (One AnyChar)
                                    (Seq (Lit ''tsv'') (Seq (One AnyChar) (Lit ''gz'')))))
                              (Alt (Seq (Lit ''_physio'') (Seq (One AnyChar) (Lit ''json'')))
                               (Seq (Lit ''_stim'') (Seq (One AnyChar) (Lit ''json'')))))))))
                     Eol))))))))),
          groups = 3\<rparr>"
  by code_simp

lemma cont_re_eq:
  "cont_re =
     Inr \<lparr>ast =
          two_level
            (Seq (Alt (Lit ''func'') (Lit ''beh''))
             (Seq (Lit ''/'')
              (Seq (Ref 1)
               (Seq ses_ref
                (Seq (Lit ''_task-'')
                 (Seq (Rep alnum 1)
                  (Seq (Opt (Seq (Lit ''_acq-'') (Rep alnum 1)))
                   (Seq (Opt (Seq (Lit ''_rec-'') (Rep alnum 1)))
                    (Seq (Opt (Seq (Lit ''_run-'') (Rep digits 1)))
                     (Seq (Opt (Seq (Lit ''_recording-'') (Rep alnum 1)))
                      (Seq (Alt (Seq (Lit ''_physio'')
                                 (Seq (One AnyChar)
                                  (Seq (Lit ''tsv'') (Seq (One AnyChar) (Lit ''gz'')))))
                            (Alt (Seq (Lit ''_stim'')
                                  (Seq (One AnyChar)
                                   (Seq (Lit ''tsv'') (Seq (One AnyChar) (Lit ''gz'')))))
                             (Alt (Seq (Lit ''_physio'') (Seq (One AnyChar) (Lit ''json'')))
                              (Seq (Lit ''_stim'') (Seq (One AnyChar) (Lit ''json''))))))
                       Eol))))))))))),
          groups = 3\<rparr>"
  by code_simp

section \<open>Searching and the conditional match\<close>

lemma findall_search:
  "findall p s = [] \<longleftrightarrow> search p s = None"
  "search p s = Some (t, x) \<Longrightarrow> \<exists>rest. findall p s = item_of (groups p) t x # rest"
  unfolding findall_def search_def
  by (subst findall_from.simps, simp split: option.splits)+

lemma item_of_Tuple:
  "3 \<le> k \<Longrightarrow> \<exists>m. item_of k t x = Tuple m \<and> length m = k \<and> m ! 1 = group_text x 2 \<and> m ! 2 = group_text x 3"
  by (simp add: item_of_def eval_nat_numeral del: upt_Suc)

lemma conditional_match_eq:
  assumes "3 \<le> groups p"
  shows "conditional_match p path =
           Inr (case search p path of
                  None \<Rightarrow> False
                | Some (t, x) \<Rightarrow> group_text x 2 = drop 1 (group_text x 3) \<or> group_text x 2 = [])"
proof (cases "search p path")
  case None
  then have "findall p path = []" by (simp add: findall_search(1))
  with None show ?thesis by (simp add: conditional_match_def)
next
  case (Some tx)
  obtain t x where tx: "tx = (t, x)" by (cases tx)
  with Some findall_search(2) obtain rest where "findall p path = item_of (groups p) t x # rest"
    by blast
  moreover from item_of_Tuple[OF assms] obtain m where
    "item_of (groups p) t x = Tuple m" "length m = groups p" "m ! 1 = group_text x 2" "m ! 2 = group_text x 3"
    by blast
  ultimately show ?thesis using assms Some tx by (simp add: conditional_match_def)
qed

section \<open>Patterns of the rules below a subject directory\<close>

lemma token_sound:
  assumes "(s', g') \<in> set (ms n (Grp i (Seq (Lit pre) (Rep alnum 1))) (s, g))"
  shows "\<exists>w. label w \<and> s = pre @ w @ s' \<and> g' = g(i \<mapsto> pre @ w)"
proof -
  from assms obtain w w' where "s = pre @ w @ s'" "1 \<le> length w" "list_all (in_cset alnum) w"
    "s = w' @ s'" "g' = g(i \<mapsto> w')"
    by (auto simp only: ms_pair)
  then show ?thesis by (intro exI[of _ w]) (auto simp: label_def)
qed

lemma two_level_sound:
  assumes "x \<in> set (ms n (two_level R) (path, Map.empty))"
  shows "length path = n \<and>
         (\<exists>lab sd rest g. path = ''/sub-'' @ lab @ ''/'' @ sd @ rest \<and> label lab \<and>
            (sd = [] \<and> g = [1 \<mapsto> ''sub-'' @ lab]
             \<or> (\<exists>s. label s \<and> sd = ''ses-'' @ s @ ''/''
                    \<and> g = [1 \<mapsto> ''sub-'' @ lab, 2 \<mapsto> ''ses-'' @ s]))
            \<and> x \<in> set (ms n R (rest, g)))"
proof -
  from assms obtain s1 s2 g2 s3 s4 g4 where len: "length path = n" and p: "path = ''/'' @ s1"
    and sub: "(s2, g2) \<in> set (ms n (Grp 1 (Seq (Lit ''sub-'') (Rep alnum 1))) (s1, Map.empty))"
    and sl: "s2 = ''/'' @ s3"
    and ses: "(s4, g4) \<in> set (ms n (Opt (Seq (Grp 2 (Seq (Lit ''ses-'') (Rep alnum 1))) (Lit ''/'')))
                  (s3, g2))"
    and x: "x \<in> set (ms n R (s4, g4))"
    unfolding two_level_def ms_Seq_pair ms_Bol_pair ms_Lit_pair by blast
  from token_sound[OF sub] obtain lab where lab: "label lab" "s1 = ''sub-'' @ lab @ s2"
    "g2 = [1 \<mapsto> ''sub-'' @ lab]" by blast
  from ses consider (none) "s4 = s3" "g4 = g2"
    | (some) s5 g5 where "(s5, g5) \<in> set (ms n (Grp 2 (Seq (Lit ''ses-'') (Rep alnum 1))) (s3, g2))"
        "s5 = ''/'' @ s4" "g4 = g5"
    unfolding ms_Opt_pair ms_Seq_pair ms_Lit_pair by blast
  then have "\<exists>lab sd rest g. path = ''/sub-'' @ lab @ ''/'' @ sd @ rest \<and> label lab \<and>
            (sd = [] \<and> g = [1 \<mapsto> ''sub-'' @ lab]
             \<or> (\<exists>s. label s \<and> sd = ''ses-'' @ s @ ''/''
                    \<and> g = [1 \<mapsto> ''sub-'' @ lab, 2 \<mapsto> ''ses-'' @ s]))
            \<and> x \<in> set (ms n R (rest, g))"
  proof cases
    case none
    have "path = ''/sub-'' @ lab @ ''/'' @ [] @ s4"
      using p lab(2) sl none(1) by simp
    moreover have "x \<in> set (ms n R (s4, [1 \<mapsto> ''sub-'' @ lab]))"
      using x none(2) lab(3) by simp
    ultimately show ?thesis using lab(1) by blast
  next
    case some
    from token_sound[OF some(1)] obtain s where s: "label s" "s3 = ''ses-'' @ s @ s5"
      "g5 = g2(2 \<mapsto> ''ses-'' @ s)" by blast
    have "path = ''/sub-'' @ lab @ ''/'' @ (''ses-'' @ s @ ''/'') @ s4"
      using p lab(2) sl s(2) some(2) by simp
    moreover have "x \<in> set (ms n R (s4, [1 \<mapsto> ''sub-'' @ lab, 2 \<mapsto> ''ses-'' @ s]))"
      using x some(3) s(3) lab(3) by simp
    ultimately show ?thesis using lab(1) s(1) by blast
  qed
  with len show ?thesis by blast
qed


lemma ref_part:
  assumes x: "x \<in> set (ms n (Seq (Ref 1) (Seq ses_ref T)) (rest, g))"
    and g1: "g 1 = Some sub"
    and T: "grps T \<inter> {1, 2, 3} = {}"
  shows "\<exists>rest2 rest3 g'. rest = sub @ rest2 \<and> x \<in> set (ms n T (rest3, g')) \<and> snd x 2 = g 2 \<and>
           (rest3 = rest2 \<and> g' = g \<and> snd x 3 = g 3
            \<or> (\<exists>s. g 2 = Some s \<and> rest2 = ''_'' @ s @ rest3 \<and> g' = g(3 \<mapsto> ''_'' @ s)
                   \<and> snd x 3 = Some (''_'' @ s)))"
proof -
  from x g1 obtain rest2 rest3 g' where r: "rest = sub @ rest2"
    and o: "(rest3, g') \<in> set (ms n ses_ref (rest2, g))"
    and t: "x \<in> set (ms n T (rest3, g'))"
    unfolding ms_Seq_pair ms_Ref_pair by auto
  from T have "2 \<notin> grps T" "3 \<notin> grps T" by auto
  with ms_caps_other[OF t] have keep: "snd x 2 = g' 2" "snd x 3 = g' 3" by auto
  from o consider (none) "rest3 = rest2" "g' = g"
    | (some) s where "g 2 = Some s" "rest2 = ''_'' @ s @ rest3" "g' = g(3 \<mapsto> ''_'' @ s)"
    unfolding ses_ref_def ms_Opt_pair ms_Grp_pair ms_Seq_pair ms_Lit_pair ms_Ref_pair
    by auto
  then show ?thesis
  proof cases
    case none
    with r t keep show ?thesis by blast
  next
    case some
    with keep have "snd x 2 = g 2" "snd x 3 = Some (''_'' @ s)" by auto
    with r t some show ?thesis by blast
  qed
qed

lemma search_two_level:
  assumes "ast p = two_level R" and "search p path = Some (t, x)"
  shows "t = path \<and> x \<in> set (ms (length path) (two_level R) (path, Map.empty))"
proof -
  from assms obtain u where u: "path = u @ t"
    and x: "x \<in> set (ms (length path) (two_level R) (t, Map.empty))"
    unfolding search_def using search_from_Some by metis
  from two_level_sound[OF x] have "length t = length path" by simp
  with u have "u = []" by simp
  with u x show ?thesis by simp
qed

lemma two_level_core:
  assumes ast: "ast p = two_level R"
    and R: "\<And>n x rest g. x \<in> set (ms n R (rest, g)) \<Longrightarrow>
              \<exists>md rest'. md \<in> MD \<and> rest = md @ rest'
                 \<and> x \<in> set (ms n (Seq (Ref 1) (Seq ses_ref T)) (rest', g))"
    and T: "grps T \<inter> {1, 2, 3} = {}"
    and s: "search p path = Some (t, x)"
  shows "\<exists>lab sd md rest rest' g.
           path = ''/sub-'' @ lab @ ''/'' @ sd @ md @ ''sub-'' @ lab @ rest \<and> label lab \<and> md \<in> MD \<and>
           x \<in> set (ms (length path) T (rest', g)) \<and>
           (sd = [] \<and> snd x 2 = None \<and> snd x 3 = None \<and> rest' = rest
            \<or> (\<exists>s. label s \<and> sd = ''ses-'' @ s @ ''/'' \<and> snd x 2 = Some (''ses-'' @ s) \<and>
                  (snd x 3 = None \<and> rest' = rest
                   \<or> snd x 3 = Some (''_ses-'' @ s) \<and> rest = ''_ses-'' @ s @ rest')))"
proof -
  from search_two_level[OF ast s]
  have x0: "x \<in> set (ms (length path) (two_level R) (path, Map.empty))" by simp
  from two_level_sound[OF x0]
  obtain lab sd r0 g0 where p: "path = ''/sub-'' @ lab @ ''/'' @ sd @ r0" and lab: "label lab"
    and sd: "sd = [] \<and> g0 = [1 \<mapsto> ''sub-'' @ lab]
             \<or> (\<exists>s. label s \<and> sd = ''ses-'' @ s @ ''/''
                    \<and> g0 = [1 \<mapsto> ''sub-'' @ lab, 2 \<mapsto> ''ses-'' @ s])"
    and x: "x \<in> set (ms (length path) R (r0, g0))"
    by (elim conjE exE) 
  from R[OF x] obtain md r1 where md: "md \<in> MD" "r0 = md @ r1"
    and k: "x \<in> set (ms (length path) (Seq (Ref 1) (Seq ses_ref T)) (r1, g0))"
    by (elim conjE exE)
  from sd have g1: "g0 1 = Some (''sub-'' @ lab)" and g3: "g0 3 = None" by auto
  from ref_part[OF k g1 T] obtain rest rest' g where r1: "r1 = (''sub-'' @ lab) @ rest"
    and t: "x \<in> set (ms (length path) T (rest', g))" and x2: "snd x 2 = g0 2"
    and c: "rest' = rest \<and> g = g0 \<and> snd x 3 = g0 3
            \<or> (\<exists>s. g0 2 = Some s \<and> rest = ''_'' @ s @ rest' \<and> g = g0(3 \<mapsto> ''_'' @ s)
                   \<and> snd x 3 = Some (''_'' @ s))"
    by (elim conjE exE)
  have path: "path = ''/sub-'' @ lab @ ''/'' @ sd @ md @ ''sub-'' @ lab @ rest"
    using p md(2) r1 by simp
  from sd have tail: "sd = [] \<and> snd x 2 = None \<and> snd x 3 = None \<and> rest' = rest
            \<or> (\<exists>s. label s \<and> sd = ''ses-'' @ s @ ''/'' \<and> snd x 2 = Some (''ses-'' @ s) \<and>
                  (snd x 3 = None \<and> rest' = rest
                   \<or> snd x 3 = Some (''_ses-'' @ s) \<and> rest = ''_ses-'' @ s @ rest'))"
  proof
    assume a: "sd = [] \<and> g0 = [1 \<mapsto> ''sub-'' @ lab]"
    then have "g0 2 = None" by simp
    with c x2 g3 have "snd x 2 = None" "snd x 3 = None" "rest' = rest" by auto
    with a show ?thesis by simp
  next
    assume "\<exists>s. label s \<and> sd = ''ses-'' @ s @ ''/'' \<and> g0 = [1 \<mapsto> ''sub-'' @ lab, 2 \<mapsto> ''ses-'' @ s]"
    then obtain s where a: "label s" "sd = ''ses-'' @ s @ ''/''"
      "g0 = [1 \<mapsto> ''sub-'' @ lab, 2 \<mapsto> ''ses-'' @ s]" by (elim conjE exE)
    then have g2: "g0 2 = Some (''ses-'' @ s)" by simp
    with c g3 have "snd x 3 = None \<and> rest' = rest
       \<or> snd x 3 = Some (''_ses-'' @ s) \<and> rest = ''_ses-'' @ s @ rest'" by auto
    with a(1,2) x2 g2 have "label s \<and> sd = ''ses-'' @ s @ ''/'' \<and> snd x 2 = Some (''ses-'' @ s) \<and>
                  (snd x 3 = None \<and> rest' = rest
                   \<or> snd x 3 = Some (''_ses-'' @ s) \<and> rest = ''_ses-'' @ s @ rest')" by simp
    then show ?thesis by (intro disjI2 exI[of _ s])
  qed
  show ?thesis
    apply (rule exI[of _ lab], rule exI[of _ sd], rule exI[of _ md], rule exI[of _ rest],
        rule exI[of _ rest'], rule exI[of _ g])
    using path lab md(1) t tail by (intro conjI)
qed

lemma core_none:
  assumes "e = Inr \<lparr>ast = two_level (Seq (Ref 1) (Seq ses_ref T)), groups = k\<rparr>"
    and "grps T \<inter> {1, 2, 3} = {}"
    and "search (projr e) path = Some (t, x)"
  shows "two_level_match {[]} T path x"
  unfolding two_level_match_def
proof (rule two_level_core[OF _ _ assms(2,3)])
  show "ast (projr e) = two_level (Seq (Ref 1) (Seq ses_ref T))" using assms(1) by simp
next
  fix n x rest g
  assume "x \<in> set (ms n (Seq (Ref 1) (Seq ses_ref T)) (rest, g))"
  then show "\<exists>md rest'. md \<in> {[]} \<and> rest = md @ rest'
                 \<and> x \<in> set (ms n (Seq (Ref 1) (Seq ses_ref T)) (rest', g))" by simp
qed

lemma core_lit:
  assumes "e = Inr \<lparr>ast = two_level (Seq (Lit d) (Seq (Ref 1) (Seq ses_ref T))), groups = k\<rparr>"
    and "grps T \<inter> {1, 2, 3} = {}"
    and "search (projr e) path = Some (t, x)"
  shows "two_level_match {d} T path x"
  unfolding two_level_match_def
proof (rule two_level_core[OF _ _ assms(2,3)])
  show "ast (projr e) = two_level (Seq (Lit d) (Seq (Ref 1) (Seq ses_ref T)))"
    using assms(1) by simp
next
  fix n x rest g
  assume "x \<in> set (ms n (Seq (Lit d) (Seq (Ref 1) (Seq ses_ref T))) (rest, g))"
  then show "\<exists>md rest'. md \<in> {d} \<and> rest = md @ rest'
                 \<and> x \<in> set (ms n (Seq (Ref 1) (Seq ses_ref T)) (rest', g))"
    unfolding ms_Seq_pair[of x n "Lit d"] ms_Lit_pair by blast
qed

lemma core_alt:
  assumes "e = Inr \<lparr>ast = two_level (Seq (Alt (Lit a) (Lit b))
                                    (Seq (Lit c) (Seq (Ref 1) (Seq ses_ref T)))), groups = k\<rparr>"
    and "grps T \<inter> {1, 2, 3} = {}"
    and "search (projr e) path = Some (t, x)"
  shows "two_level_match {a @ c, b @ c} T path x"
  unfolding two_level_match_def
proof (rule two_level_core[OF _ _ assms(2,3)])
  show "ast (projr e) = two_level (Seq (Alt (Lit a) (Lit b))
                                    (Seq (Lit c) (Seq (Ref 1) (Seq ses_ref T))))"
    using assms(1) by simp
next
  fix n x rest g
  assume "x \<in> set (ms n (Seq (Alt (Lit a) (Lit b))
                                    (Seq (Lit c) (Seq (Ref 1) (Seq ses_ref T)))) (rest, g))"
  then obtain s1 s2 where "rest = a @ s1 \<or> rest = b @ s1" "s1 = c @ s2"
    "x \<in> set (ms n (Seq (Ref 1) (Seq ses_ref T)) (s2, g))"
    unfolding ms_Seq_pair[of x n "Alt (Lit a) (Lit b)"] ms_Seq_pair[of x n "Lit c"]
      ms_Alt_pair ms_Lit_pair by blast
  then have "(a @ c \<in> {a @ c, b @ c} \<and> rest = (a @ c) @ s2 \<or> b @ c \<in> {a @ c, b @ c} \<and> rest = (b @ c) @ s2)
      \<and> x \<in> set (ms n (Seq (Ref 1) (Seq ses_ref T)) (s2, g))" by auto
  then show "\<exists>md rest'. md \<in> {a @ c, b @ c} \<and> rest = md @ rest'
                 \<and> x \<in> set (ms n (Seq (Ref 1) (Seq ses_ref T)) (rest', g))"
    by blast
qed

lemma scans_match:
  "search (projr is_session_level_scans_re) path = Some (t, x) \<Longrightarrow>
     \<exists>T. two_level_match {[]} T path x"
  by (rule exI, rule core_none[OF is_session_level_scans_re_eq]) simp_all

lemma func_ses_match:
  "search (projr func_ses_re) path = Some (t, x) \<Longrightarrow> \<exists>T. two_level_match {[]} T path x"
  by (rule exI, rule core_none[OF func_ses_re_eq]) simp_all

lemma anat_ses_match:
  "search (projr (anat_ses_re (BIDSValidator ia))) path = Some (t, x) \<Longrightarrow>
     \<exists>T. two_level_match {[]} T path x"
  by (rule exI, rule core_none[OF anat_ses_re_eq]) simp_all

lemma dwi_ses_match:
  "search (projr dwi_ses_re) path = Some (t, x) \<Longrightarrow> \<exists>T. two_level_match {[]} T path x"
  by (rule exI, rule core_none[OF dwi_ses_re_eq]) simp_all

lemma anat_match:
  "search (projr (is_anat_anat_re (BIDSValidator ia))) path = Some (t, x) \<Longrightarrow>
     \<exists>T. two_level_match {''anat/''} T path x"
  by (rule exI, rule core_lit[OF is_anat_anat_re_eq]) simp_all

lemma dwi_match:
  "search (projr is_dwi_anat_re) path = Some (t, x) \<Longrightarrow>
     \<exists>T. two_level_match {''dwi/''} T path x"
  by (rule exI, rule core_lit[OF is_dwi_anat_re_eq]) simp_all

lemma field_map_match:
  "search (projr is_field_map_anat_re) path = Some (t, x) \<Longrightarrow>
     \<exists>T. two_level_match {''fmap/''} T path x"
  by (rule exI, rule core_lit[OF is_field_map_anat_re_eq]) simp_all

lemma func_match:
  "search (projr func_re) path = Some (t, x) \<Longrightarrow>
     \<exists>T. two_level_match {''func/''} (Seq (Lit ''_task-'') (Seq (Rep alnum 1) T)) path x"
  by (rule exI, rule core_lit[OF func_re_eq]) simp_all

lemma func_beh_match:
  "search (projr func_beh) path = Some (t, x) \<Longrightarrow>
     \<exists>T. two_level_match {''beh/''} (Seq (Lit ''_task-'') (Seq (Rep alnum 1) T)) path x"
  by (rule exI, rule core_lit[OF func_beh_eq]) simp_all

lemma cont_match:
  "search (projr cont_re) path = Some (t, x) \<Longrightarrow>
     \<exists>T. two_level_match {''func/'', ''beh/''} (Seq (Lit ''_task-'') (Seq (Rep alnum 1) T)) path x"
  using core_alt[OF cont_re_eq, of path t x] by auto

lemma conditional_match_total:
  "3 \<le> groups p \<Longrightarrow> \<exists>b. conditional_match p path = Inr b"
  by (simp add: conditional_match_eq)

lemma conditional_match_True:
  "3 \<le> groups p \<Longrightarrow> conditional_match p path = Inr True \<Longrightarrow> \<exists>t x. search p path = Some (t, x)"
  by (auto simp: conditional_match_eq split: option.splits)

lemma is_anat_eq:
  "is_anat (BIDSValidator ia) path =
     conditional_match (projr (is_anat_anat_re (BIDSValidator ia))) path"
  by (simp add: is_anat_def is_anat_anat_re_eq bind_res_def)

lemma is_dwi_eq: "is_dwi v path = conditional_match (projr is_dwi_anat_re) path"
  by (simp add: is_dwi_def is_dwi_anat_re_eq bind_res_def)

lemma is_field_map_eq:
  "is_field_map v path = conditional_match (projr is_field_map_anat_re) path"
  by (simp add: is_field_map_def is_field_map_anat_re_eq bind_res_def)

lemma is_func_eq: "is_func v path = conditional_match (projr func_re) path"
  by (simp add: is_func_def func_re_eq bind_res_def)

lemma is_behavioral_eq: "is_behavioral v path = conditional_match (projr func_beh) path"
  by (simp add: is_behavioral_def func_beh_eq bind_res_def)

lemma is_cont_eq: "is_cont v path = conditional_match (projr cont_re) path"
  by (simp add: is_cont_def cont_re_eq bind_res_def)

lemma is_subject_level_eq:
  "is_subject_level v path = Inr (search (projr is_subject_level_scans_re) path \<noteq> None)"
  by (simp add: is_subject_level_def is_subject_level_scans_re_eq bind_res_def)

lemma is_phenotypic_eq:
  "is_phenotypic v path = Inr (search (projr phenotypic_data) path \<noteq> None)"
  by (simp add: is_phenotypic_def phenotypic_data_eq bind_res_def)

lemma is_associated_data_eq:
  "is_associated_data v path =
     Inr (index_associated v \<and> search (projr associated_data_re) path \<noteq> None)"
  by (simp add: is_associated_data_def associated_data_re_eq bind_res_def)

lemma is_top_level_eq:
  "is_top_level (BIDSValidator ia) path =
     Inr (path \<in> set [''/README'', ''/CHANGES'', ''/dataset_description.json'',
                       ''/participants.tsv'', ''/participants.json'', ''/phasediff.json'',
                       ''/phase1.json'', ''/phase2.json'', ''/fieldmap.json'']
          \<or> search (projr func_top_re) path \<noteq> None
          \<or> search (projr (anat_top_re (BIDSValidator ia))) path \<noteq> None
          \<or> search (projr dwi_top_re) path \<noteq> None
          \<or> search (projr multi_dir_fieldmap_re) path \<noteq> None
          \<or> search (projr other_top_files_re) path \<noteq> None)"
  by (simp add: is_top_level_def func_top_re_eq anat_top_re_eq dwi_top_re_eq
      multi_dir_fieldmap_re_eq other_top_files_re_eq bind_res_def Let_def)

lemma is_session_level_eq:
  "is_session_level (BIDSValidator ia) path =
     bind_res (conditional_match (projr is_session_level_scans_re) path) (\<lambda>scans.
     bind_res (conditional_match (projr func_ses_re) path) (\<lambda>func_ses.
     bind_res (conditional_match (projr (anat_ses_re (BIDSValidator ia))) path) (\<lambda>anat_ses.
     bind_res (conditional_match (projr dwi_ses_re) path) (\<lambda>dwi_ses.
     Inr (scans \<or> func_ses \<or> anat_ses \<or> dwi_ses)))))"
  by (simp add: is_session_level_def is_session_level_scans_re_eq func_ses_re_eq
      anat_ses_re_eq dwi_ses_re_eq bind_res_def)

lemma search_Bol:
  assumes "ast p = Seq Bol R" and "search p path = Some (t, x)"
  shows "t = path \<and> x \<in> set (ms (length path) R (path, Map.empty))"
proof -
  from assms obtain u where u: "path = u @ t"
    and x: "x \<in> set (ms (length path) (Seq Bol R) (t, Map.empty))"
    unfolding search_def using search_from_Some by metis
  then have "length t = length path" and r: "x \<in> set (ms (length path) R (t, Map.empty))"
    unfolding ms_Seq_pair ms_Bol_pair by auto
  with u have "u = []" by simp
  with u r show ?thesis by simp
qed

lemmas compiled = func_top_re_eq anat_top_re_eq dwi_top_re_eq multi_dir_fieldmap_re_eq
  other_top_files_re_eq associated_data_re_eq phenotypic_data_eq is_session_level_scans_re_eq
  func_ses_re_eq anat_ses_re_eq dwi_ses_re_eq is_subject_level_scans_re_eq is_anat_anat_re_eq
  is_dwi_anat_re_eq is_field_map_anat_re_eq func_re_eq func_beh_eq cont_re_eq

lemmas rules_def = is_bids_def is_top_level_def is_associated_data_def is_session_level_def
  is_subject_level_def is_anat_def is_dwi_def is_func_def is_behavioral_def is_cont_def
  is_field_map_def is_phenotypic_def

lemma match_subject_repeated:
  assumes "two_level_match MD T path x"
    and "MD \<subseteq> {[], ''anat/'', ''dwi/'', ''func/'', ''beh/'', ''fmap/''}"
  shows "subject_repeated path"
proof -
  from assms(1) obtain lab sd md rest where "path = ''/sub-'' @ lab @ ''/'' @ sd @ md @ ''sub-'' @ lab @ rest"
    "label lab" "md \<in> MD" "sd = [] \<or> (\<exists>s. label s \<and> sd = ''ses-'' @ s @ ''/'')"
    unfolding two_level_match_def by blast
  with assms(2) show ?thesis unfolding subject_repeated_def by blast
qed

lemma subject_header_form:
  assumes "x \<in> set (ms n (Seq (Lit ''/'') (Seq (Grp 1 (Seq (Lit ''sub-'') (Rep alnum 1)))
                          (Seq (Lit ''/'') (Seq (Ref 1) T)))) (path, Map.empty))"
  shows "\<exists>lab rest. path = ''/sub-'' @ lab @ ''/sub-'' @ lab @ rest \<and> label lab"
proof -
  from assms obtain s1 s2 g2 s3 s4 w where p: "path = ''/'' @ s1"
    and sub: "(s2, g2) \<in> set (ms n (Grp 1 (Seq (Lit ''sub-'') (Rep alnum 1))) (s1, Map.empty))"
    and sl: "s2 = ''/'' @ s3" and r: "g2 1 = Some w" "s3 = w @ s4"
    unfolding ms_Seq_pair ms_Lit_pair ms_Ref_pair by blast
  from token_sound[OF sub] obtain lab where lab: "label lab" "s1 = ''sub-'' @ lab @ s2"
    "g2 = [1 \<mapsto> ''sub-'' @ lab]" by blast
  with r have "w = ''sub-'' @ lab" by simp
  with p lab sl r have "path = ''/sub-'' @ lab @ ''/sub-'' @ lab @ s4" by simp
  with lab(1) show ?thesis by blast
qed

lemma subject_level_sound:
  assumes "search (projr is_subject_level_scans_re) path = Some (t, x)"
  shows "subject_repeated path"
proof -
  have "\<exists>lab rest. path = ''/sub-'' @ lab @ ''/sub-'' @ lab @ rest \<and> label lab"
    by (rule subject_header_form, rule search_Bol[OF _ assms, THEN conjunct2])
      (simp add: is_subject_level_scans_re_eq)
  then obtain lab rest where "path = ''/sub-'' @ lab @ ''/'' @ [] @ [] @ ''sub-'' @ lab @ rest"
    "label lab" by auto
  then show ?thesis unfolding subject_repeated_def by blast
qed

lemma accepted_match:
  assumes "conditional_match (projr e) path = Inr True" and "3 \<le> groups (projr e)"
    and "\<And>t x. search (projr e) path = Some (t, x) \<Longrightarrow> \<exists>T. two_level_match MD T path x"
    and "MD \<subseteq> {[], ''anat/'', ''dwi/'', ''func/'', ''beh/'', ''fmap/''}"
  shows "subject_repeated path"
proof -
  from conditional_match_True[OF assms(2,1)] obtain t x where "search (projr e) path = Some (t, x)"
    by blast
  from assms(3)[OF this] match_subject_repeated[OF _ assms(4)] show ?thesis by blast
qed

lemma session_level_cases:
  assumes "is_session_level (BIDSValidator ia) path = Inr True"
  shows "conditional_match (projr is_session_level_scans_re) path = Inr True
       \<or> conditional_match (projr func_ses_re) path = Inr True
       \<or> conditional_match (projr (anat_ses_re (BIDSValidator ia))) path = Inr True
       \<or> conditional_match (projr dwi_ses_re) path = Inr True"
  using assms unfolding is_session_level_eq bind_res_def
  by (auto split: sum.splits)

lemma groups_ge3:
  "3 \<le> groups (projr is_session_level_scans_re)"
  "3 \<le> groups (projr func_ses_re)"
  "3 \<le> groups (projr (anat_ses_re (BIDSValidator ia)))"
  "3 \<le> groups (projr dwi_ses_re)"
  "3 \<le> groups (projr (is_anat_anat_re (BIDSValidator ia)))"
  "3 \<le> groups (projr is_dwi_anat_re)"
  "3 \<le> groups (projr is_field_map_anat_re)"
  "3 \<le> groups (projr func_re)"
  "3 \<le> groups (projr func_beh)"
  "3 \<le> groups (projr cont_re)"
  by (simp_all add: compiled)

lemma task_matches:
  "search (projr func_re) path = Some (t, x) \<Longrightarrow> \<exists>T. two_level_match {''func/''} T path x"
  "search (projr func_beh) path = Some (t, x) \<Longrightarrow> \<exists>T. two_level_match {''beh/''} T path x"
  "search (projr cont_re) path = Some (t, x) \<Longrightarrow> \<exists>T. two_level_match {''func/'', ''beh/''} T path x"
  using func_match func_beh_match cont_match by blast+

lemma accepted_shapes:
  "conditional_match (projr is_session_level_scans_re) path = Inr True \<Longrightarrow> subject_repeated path"
  "conditional_match (projr func_ses_re) path = Inr True \<Longrightarrow> subject_repeated path"
  "conditional_match (projr (anat_ses_re (BIDSValidator ia))) path = Inr True \<Longrightarrow> subject_repeated path"
  "conditional_match (projr dwi_ses_re) path = Inr True \<Longrightarrow> subject_repeated path"
  "conditional_match (projr (is_anat_anat_re (BIDSValidator ia))) path = Inr True \<Longrightarrow> subject_repeated path"
  "conditional_match (projr is_dwi_anat_re) path = Inr True \<Longrightarrow> subject_repeated path"
  "conditional_match (projr is_field_map_anat_re) path = Inr True \<Longrightarrow> subject_repeated path"
  "conditional_match (projr func_re) path = Inr True \<Longrightarrow> subject_repeated path"
  "conditional_match (projr func_beh) path = Inr True \<Longrightarrow> subject_repeated path"
  "conditional_match (projr cont_re) path = Inr True \<Longrightarrow> subject_repeated path"
  subgoal by (rule accepted_match[OF _ groups_ge3(1) scans_match]) simp_all
  subgoal by (rule accepted_match[OF _ groups_ge3(2) func_ses_match]) simp_all
  subgoal by (rule accepted_match[OF _ groups_ge3(3) anat_ses_match]) simp_all
  subgoal by (rule accepted_match[OF _ groups_ge3(4) dwi_ses_match]) simp_all
  subgoal by (rule accepted_match[OF _ groups_ge3(5) anat_match]) simp_all
  subgoal by (rule accepted_match[OF _ groups_ge3(6) dwi_match]) simp_all
  subgoal by (rule accepted_match[OF _ groups_ge3(7) field_map_match]) simp_all
  subgoal by (rule accepted_match[OF _ groups_ge3(8) task_matches(1)]) simp_all
  subgoal by (rule accepted_match[OF _ groups_ge3(9) task_matches(2)]) simp_all
  subgoal by (rule accepted_match[OF _ groups_ge3(10) task_matches(3)]) simp_all
  done

lemma rules_subject_repeated:
  "is_session_level (BIDSValidator ia) path = Inr True \<Longrightarrow> subject_repeated path"
  "is_subject_level (BIDSValidator ia) path = Inr True \<Longrightarrow> subject_repeated path"
  "is_anat (BIDSValidator ia) path = Inr True \<Longrightarrow> subject_repeated path"
  "is_dwi (BIDSValidator ia) path = Inr True \<Longrightarrow> subject_repeated path"
  "is_func (BIDSValidator ia) path = Inr True \<Longrightarrow> subject_repeated path"
  "is_behavioral (BIDSValidator ia) path = Inr True \<Longrightarrow> subject_repeated path"
  "is_cont (BIDSValidator ia) path = Inr True \<Longrightarrow> subject_repeated path"
  "is_field_map (BIDSValidator ia) path = Inr True \<Longrightarrow> subject_repeated path"
proof -
  show "subject_repeated path" if "is_session_level (BIDSValidator ia) path = Inr True"
    using session_level_cases[OF that] accepted_shapes(1-4) by blast
  show "subject_repeated path" if "is_subject_level (BIDSValidator ia) path = Inr True"
  proof -
    from that obtain t x where "search (projr is_subject_level_scans_re) path = Some (t, x)"
      unfolding is_subject_level_eq by auto
    then show ?thesis by (rule subject_level_sound)
  qed
  show "subject_repeated path" if "is_anat (BIDSValidator ia) path = Inr True"
    using that unfolding is_anat_eq by (rule accepted_shapes)
  show "subject_repeated path" if "is_dwi (BIDSValidator ia) path = Inr True"
    using that unfolding is_dwi_eq by (rule accepted_shapes)
  show "subject_repeated path" if "is_func (BIDSValidator ia) path = Inr True"
    using that unfolding is_func_eq by (rule accepted_shapes)
  show "subject_repeated path" if "is_behavioral (BIDSValidator ia) path = Inr True"
    using that unfolding is_behavioral_eq by (rule accepted_shapes)
  show "subject_repeated path" if "is_cont (BIDSValidator ia) path = Inr True"
    using that unfolding is_cont_eq by (rule accepted_shapes)
  show "subject_repeated path" if "is_field_map (BIDSValidator ia) path = Inr True"
    using that unfolding is_field_map_eq by (rule accepted_shapes)
qed

lemma rule_results:
  "\<exists>b. is_top_level (BIDSValidator ia) path = Inr b"
  "\<exists>b. is_associated_data (BIDSValidator ia) path = Inr b"
  "\<exists>b. is_session_level (BIDSValidator ia) path = Inr b"
  "\<exists>b. is_subject_level (BIDSValidator ia) path = Inr b"
  "\<exists>b. is_anat (BIDSValidator ia) path = Inr b"
  "\<exists>b. is_dwi (BIDSValidator ia) path = Inr b"
  "\<exists>b. is_func (BIDSValidator ia) path = Inr b"
  "\<exists>b. is_behavioral (BIDSValidator ia) path = Inr b"
  "\<exists>b. is_cont (BIDSValidator ia) path = Inr b"
  "\<exists>b. is_field_map (BIDSValidator ia) path = Inr b"
  "\<exists>b. is_phenotypic (BIDSValidator ia) path = Inr b"
  by (simp_all add: is_top_level_eq is_associated_data_eq is_session_level_eq is_subject_level_eq
      is_anat_eq is_dwi_eq is_func_eq is_behavioral_eq is_cont_eq is_field_map_eq is_phenotypic_eq
      conditional_match_eq compiled bind_res_def)

lemma is_bids_Inr:
  assumes "is_top_level v path = Inr b1" "is_associated_data v path = Inr b2"
    "is_session_level v path = Inr b3" "is_subject_level v path = Inr b4"
    "is_anat v path = Inr b5" "is_dwi v path = Inr b6" "is_func v path = Inr b7"
    "is_behavioral v path = Inr b8" "is_cont v path = Inr b9" "is_field_map v path = Inr b10"
    "is_phenotypic v path = Inr b11"
  shows "is_bids v path = Inr (b1 \<or> b2 \<or> b3 \<or> b4 \<or> b5 \<or> b6 \<or> b7 \<or> b8 \<or> b9 \<or> b10 \<or> b11)"
  using assms by (simp add: is_bids_def bind_res_def)

section \<open>Paths below a func directory\<close>

lemma slash_not_alnum: "\<not> in_cset alnum (CHR ''/'')"
  by (simp add: alnum_def)

lemma label_split:
  assumes "list_all (in_cset alnum) a" and "list_all (in_cset alnum) b"
    and "a @ CHR ''/'' # r = b @ CHR ''/'' # r'"
  shows "a = b \<and> r = r'"
  using assms
proof (induction a arbitrary: b)
  case Nil
  then show ?case using slash_not_alnum by (cases b) auto
next
  case (Cons c a)
  then show ?case using slash_not_alnum by (cases b) auto
qed

lemma md_func:
  assumes "md \<in> {[], ''anat/'', ''dwi/'', ''func/'', ''beh/'', ''fmap/''}"
    and "md @ ''sub-'' @ z = ''func/'' @ f"
  shows "md = ''func/'' \<and> f = ''sub-'' @ z"
  using assms by auto

lemma md_ses:
  assumes "md \<in> {[], ''anat/'', ''dwi/'', ''func/'', ''beh/'', ''fmap/''}"
  shows "md @ ''sub-'' @ z \<noteq> ''ses-'' @ y"
  using assms by auto

lemma func_shape_match:
  assumes m: "two_level_match MD T (''/sub-'' @ lab' @ ''/'' @ sd' @ ''func/'' @ f) x"
    and lab': "list_all (in_cset alnum) lab'"
    and sd': "sd' = [] \<or> (\<exists>s'. list_all (in_cset alnum) s' \<and> sd' = ''ses-'' @ s' @ ''/'')"
    and MD: "MD \<subseteq> {[], ''anat/'', ''dwi/'', ''func/'', ''beh/'', ''fmap/''}"
  shows "''func/'' \<in> MD \<and> (\<exists>u rest' g n. f = u @ rest' \<and> x \<in> set (ms n T (rest', g)))"
proof -
  from m obtain lab sd md rest rest' g where
    p: "''/sub-'' @ lab' @ ''/'' @ sd' @ ''func/'' @ f = ''/sub-'' @ lab @ ''/'' @ sd @ md @ ''sub-'' @ lab @ rest"
    and lab: "label lab" and md: "md \<in> MD"
    and x: "x \<in> set (ms (length (''/sub-'' @ lab' @ ''/'' @ sd' @ ''func/'' @ f)) T (rest', g))"
    and sd: "sd = [] \<or> (\<exists>s. label s \<and> sd = ''ses-'' @ s @ ''/'')"
    and r: "rest' = rest \<or> (\<exists>s. rest = ''_ses-'' @ s @ rest')"
    unfolding two_level_match_def by blast
  from md MD have md6: "md \<in> {[], ''anat/'', ''dwi/'', ''func/'', ''beh/'', ''fmap/''}" by blast
  from p have "lab' @ CHR ''/'' # (sd' @ ''func/'' @ f) = lab @ CHR ''/'' # (sd @ md @ ''sub-'' @ lab @ rest)"
    by simp
  from label_split[OF lab' _ this] lab
  have e: "sd' @ ''func/'' @ f = sd @ md @ ''sub-'' @ lab @ rest" by (simp add: label_def)
  have "md @ ''sub-'' @ lab @ rest = ''func/'' @ f"
  proof -
    from sd sd' consider (a) "sd = []" "sd' = []"
      | (b) s' where "sd = []" "sd' = ''ses-'' @ s' @ ''/''"
      | (c) s where "sd = ''ses-'' @ s @ ''/''" "sd' = []"
      | (d) s s' where "label s" "list_all (in_cset alnum) s'" "sd = ''ses-'' @ s @ ''/''"
          "sd' = ''ses-'' @ s' @ ''/''"
      by blast
    then show ?thesis
    proof cases
      case a
      with e show ?thesis by simp
    next
      case b
      with e have "md @ ''sub-'' @ lab @ rest = ''ses-'' @ (s' @ ''/func/'' @ f)" by simp
      with md_ses[OF md6] show ?thesis by blast
    next
      case c
      with e show ?thesis by simp
    next
      case d
      with e have "s' @ CHR ''/'' # (''func/'' @ f) = s @ CHR ''/'' # (md @ ''sub-'' @ lab @ rest)"
        by simp
      from label_split[OF d(2) _ this] d(1) show ?thesis by (simp add: label_def)
    qed
  qed
  from md_func[OF md6 this] have "md = ''func/''" and f: "f = ''sub-'' @ lab @ rest" by simp_all
  with md have "''func/'' \<in> MD" by simp
  moreover from r f have "\<exists>u. f = u @ rest'" by (metis append.assoc)
  ultimately show ?thesis using x by blast
qed

lemma has_task_token_append: "has_task_token v \<Longrightarrow> has_task_token (u @ v)"
  by (induction u) auto

lemma task_part:
  assumes "x \<in> set (ms n (Seq (Lit ''_task-'') (Seq (Rep alnum 1) T)) (rest, g))"
  shows "has_task_token rest"
proof -
  from assms obtain w r where "rest = ''_task-'' @ w @ r" "1 \<le> length w" "list_all (in_cset alnum) w"
    unfolding ms_Seq_pair ms_Lit_pair ms_Rep_pair by blast
  then obtain c w' where "rest = ''_task-'' @ (c # w') @ r" "in_cset alnum c"
    by (cases w) auto
  then show ?thesis by simp
qed

lemma search_Bol_None:
  assumes "ast p = Seq Bol R" and "ms (length path) R (path, Map.empty) = []"
  shows "search p path = None"
proof (cases "search p path")
  case (Some tx)
  then obtain t x where "search p path = Some (t, x)" by (cases tx) simp
  from search_Bol[OF assms(1) this] assms(2) show ?thesis by simp
qed simp

lemma top_level_rejects_sub:
  "is_top_level (BIDSValidator ia) (''/sub-'' @ r) = Inr False"
proof -
  have "search (projr func_top_re) (''/sub-'' @ r) = None"
    by (rule search_Bol_None, simp add: func_top_re_eq) (simp add: ms.simps)
  moreover have "search (projr (anat_top_re (BIDSValidator ia))) (''/sub-'' @ r) = None"
    by (rule search_Bol_None, simp add: anat_top_re_eq) (simp add: ms.simps)
  moreover have "search (projr dwi_top_re) (''/sub-'' @ r) = None"
    by (rule search_Bol_None, simp add: dwi_top_re_eq) (simp add: ms.simps)
  moreover have "search (projr multi_dir_fieldmap_re) (''/sub-'' @ r) = None"
    by (rule search_Bol_None, simp add: multi_dir_fieldmap_re_eq) (simp add: ms.simps)
  moreover have "search (projr other_top_files_re) (''/sub-'' @ r) = None"
    by (rule search_Bol_None, simp add: other_top_files_re_eq) (simp add: ms.simps)
  ultimately show ?thesis by (simp add: is_top_level_eq)
qed

lemma associated_rejects_sub:
  "is_associated_data (BIDSValidator ia) (''/sub-'' @ r) = Inr False"
proof -
  have "search (projr associated_data_re) (''/sub-'' @ r) = None"
    by (rule search_Bol_None, simp add: associated_data_re_eq) (simp add: ms.simps)
  then show ?thesis by (simp add: is_associated_data_eq)
qed

lemma phenotypic_rejects_sub:
  "is_phenotypic (BIDSValidator ia) (''/sub-'' @ r) = Inr False"
proof -
  have "search (projr phenotypic_data) (''/sub-'' @ r) = None"
    by (rule search_Bol_None, simp add: phenotypic_data_eq) (simp add: ms.simps)
  then show ?thesis by (simp add: is_phenotypic_eq)
qed


lemma func_shape_search_None:
  assumes match: "\<And>t x. search p (''/sub-'' @ lab @ ''/'' @ sd @ ''func/'' @ f) = Some (t, x)
              \<Longrightarrow> \<exists>T. two_level_match MD T (''/sub-'' @ lab @ ''/'' @ sd @ ''func/'' @ f) x"
    and lab: "list_all (in_cset alnum) lab"
    and sd: "sd = [] \<or> (\<exists>s. list_all (in_cset alnum) s \<and> sd = ''ses-'' @ s @ ''/'')"
    and MD: "MD \<subseteq> {[], ''anat/'', ''dwi/'', ''beh/'', ''fmap/''}"
  shows "search p (''/sub-'' @ lab @ ''/'' @ sd @ ''func/'' @ f) = None"
proof (cases "search p (''/sub-'' @ lab @ ''/'' @ sd @ ''func/'' @ f)")
  case (Some tx)
  then obtain t x where "search p (''/sub-'' @ lab @ ''/'' @ sd @ ''func/'' @ f) = Some (t, x)"
    by (cases tx) simp
  from match[OF this] obtain T where "two_level_match MD T (''/sub-'' @ lab @ ''/'' @ sd @ ''func/'' @ f) x"
    by blast
  from func_shape_match[OF this lab sd] MD have "''func/'' \<in> MD" by blast
  with MD show ?thesis by auto
qed simp

lemma func_shape_task_search_None:
  assumes match: "\<And>t x. search p (''/sub-'' @ lab @ ''/'' @ sd @ ''func/'' @ f) = Some (t, x)
              \<Longrightarrow> \<exists>T. two_level_match MD (Seq (Lit ''_task-'') (Seq (Rep alnum 1) T))
                       (''/sub-'' @ lab @ ''/'' @ sd @ ''func/'' @ f) x"
    and lab: "list_all (in_cset alnum) lab"
    and sd: "sd = [] \<or> (\<exists>s. list_all (in_cset alnum) s \<and> sd = ''ses-'' @ s @ ''/'')"
    and MD: "MD \<subseteq> {[], ''anat/'', ''dwi/'', ''func/'', ''beh/'', ''fmap/''}"
    and f: "\<not> has_task_token f"
  shows "search p (''/sub-'' @ lab @ ''/'' @ sd @ ''func/'' @ f) = None"
proof (cases "search p (''/sub-'' @ lab @ ''/'' @ sd @ ''func/'' @ f)")
  case (Some tx)
  then obtain t x where "search p (''/sub-'' @ lab @ ''/'' @ sd @ ''func/'' @ f) = Some (t, x)"
    by (cases tx) simp
  from match[OF this] obtain T where
    "two_level_match MD (Seq (Lit ''_task-'') (Seq (Rep alnum 1) T))
       (''/sub-'' @ lab @ ''/'' @ sd @ ''func/'' @ f) x"
    by blast
  from func_shape_match[OF this lab sd MD] obtain u rest' g n where "f = u @ rest'"
    "x \<in> set (ms n (Seq (Lit ''_task-'') (Seq (Rep alnum 1) T)) (rest', g))" by blast
  with task_part has_task_token_append have "has_task_token f" by blast
  with f show ?thesis by simp
qed simp

lemma conditional_match_None:
  "3 \<le> groups p \<Longrightarrow> search p path = None \<Longrightarrow> conditional_match p path = Inr False"
  by (simp add: conditional_match_eq)

lemma func_shape_rejected:
  assumes lab: "list_all (in_cset alnum) lab"
    and sd: "sd = [] \<or> (\<exists>s. list_all (in_cset alnum) s \<and> sd = ''ses-'' @ s @ ''/'')"
    and f: "\<not> has_task_token f"
  shows "is_bids (BIDSValidator ia) (''/sub-'' @ lab @ ''/'' @ sd @ ''func/'' @ f) = Inr False"
proof -
  let ?p = "''/sub-'' @ lab @ ''/'' @ sd @ ''func/'' @ f"
  have top: "is_top_level (BIDSValidator ia) ?p = Inr False"
    by (rule top_level_rejects_sub)
  have assoc: "is_associated_data (BIDSValidator ia) ?p = Inr False"
    by (rule associated_rejects_sub)
  have pheno: "is_phenotypic (BIDSValidator ia) ?p = Inr False"
    by (rule phenotypic_rejects_sub)
  have subj: "is_subject_level (BIDSValidator ia) ?p = Inr False"
  proof -
    have "search (projr is_subject_level_scans_re) ?p = None"
    proof (cases "search (projr is_subject_level_scans_re) ?p")
      case (Some tx)
      then obtain t x where s: "search (projr is_subject_level_scans_re) ?p = Some (t, x)"
        by (cases tx) simp
      have "\<exists>lab' rest. ?p = ''/sub-'' @ lab' @ ''/sub-'' @ lab' @ rest \<and> label lab'"
        by (rule subject_header_form, rule search_Bol[OF _ s, THEN conjunct2])
          (simp add: is_subject_level_scans_re_eq)
      then obtain lab' rest where e: "?p = ''/sub-'' @ lab' @ ''/sub-'' @ lab' @ rest"
        and l: "label lab'" by blast
      from e have "lab @ CHR ''/'' # (sd @ ''func/'' @ f) = lab' @ CHR ''/'' # (''sub-'' @ lab' @ rest)"
        by simp
      from label_split[OF lab _ this] l have "sd @ ''func/'' @ f = ''sub-'' @ lab' @ rest"
        by (simp add: label_def)
      with sd show ?thesis by auto
    qed simp
    then show ?thesis by (simp add: is_subject_level_eq)
  qed
  have ses: "is_session_level (BIDSValidator ia) ?p = Inr False"
    unfolding is_session_level_eq
    using conditional_match_None[OF groups_ge3(1) func_shape_search_None[OF scans_match lab sd]]
      conditional_match_None[OF groups_ge3(2) func_shape_search_None[OF func_ses_match lab sd]]
      conditional_match_None[OF groups_ge3(3) func_shape_search_None[OF anat_ses_match lab sd]]
      conditional_match_None[OF groups_ge3(4) func_shape_search_None[OF dwi_ses_match lab sd]]
    by (simp add: bind_res_def)
  have anat: "is_anat (BIDSValidator ia) ?p = Inr False"
    unfolding is_anat_eq
    by (rule conditional_match_None[OF groups_ge3(5) func_shape_search_None[OF anat_match lab sd]]) simp_all
  have dwi: "is_dwi (BIDSValidator ia) ?p = Inr False"
    unfolding is_dwi_eq
    by (rule conditional_match_None[OF groups_ge3(6) func_shape_search_None[OF dwi_match lab sd]]) simp_all
  have fmap: "is_field_map (BIDSValidator ia) ?p = Inr False"
    unfolding is_field_map_eq
    by (rule conditional_match_None[OF groups_ge3(7) func_shape_search_None[OF field_map_match lab sd]]) simp_all
  have func: "is_func (BIDSValidator ia) ?p = Inr False"
    unfolding is_func_eq
    by (rule conditional_match_None[OF groups_ge3(8)
          func_shape_task_search_None[OF func_match lab sd _ f]]) simp_all
  have beh: "is_behavioral (BIDSValidator ia) ?p = Inr False"
    unfolding is_behavioral_eq
    by (rule conditional_match_None[OF groups_ge3(9)
          func_shape_task_search_None[OF func_beh_match lab sd _ f]]) simp_all
  have cont: "is_cont (BIDSValidator ia) ?p = Inr False"
    unfolding is_cont_eq
    by (rule conditional_match_None[OF groups_ge3(10)
          func_shape_task_search_None[OF cont_match lab sd _ f]]) simp_all
  from is_bids_Inr[OF top assoc ses subj anat dwi func beh cont fmap pheno]
  show ?thesis by simp
qed

section \<open>The entity extractor\<close>

lemma sub_pattern_unbalanced:
  "re_compile (''/^'' @ bs # ''/sub-([a-zA-Z0-9]+)/)'') = Inl ReError"
  by code_simp

text \<open>
  Claim C4 says that \<^verbatim>\<open>get_path_values\<close> returns a structure with a subject and a
  session field for every path, without raising. The code does the opposite: the pattern
  for the subject, \<^verbatim>\<open>/^\/sub-([a-zA-Z0-9]+)/)\<close>, closes a parenthesis it never opened,
  so \<^verbatim>\<open>re.compile\<close> raises \<^verbatim>\<open>re.error\<close> before the path is looked at. The call
  raises on every path, for every validator.
\<close>

theorem get_path_values_raises:
  "get_path_values self path = Inl ReError"
  unfolding get_path_values_def Let_def sub_pattern_unbalanced bind_res_def by simp

section \<open>The configuration flag\<close>

lemma associated_data_sound:
  assumes "search (projr associated_data_re) path = Some (t, x)"
  shows "\<exists>d\<in>set [''/code/'', ''/derivatives/'', ''/sourcedata/'', ''/stimuli/'']. prefix d path"
proof -
  from search_Bol[OF _ assms] obtain s1 s2 s3 where "path = ''/'' @ s1"
    "s1 = ''code'' @ s2 \<or> s1 = ''derivatives'' @ s2 \<or> s1 = ''sourcedata'' @ s2 \<or> s1 = ''stimuli'' @ s2"
    "s2 = ''/'' @ s3"
    unfolding associated_data_re_eq by (simp add: ms_Seq_pair ms_Lit_pair ms_Alt_pair) blast
  then show ?thesis by (auto simp: prefix_def)
qed

lemma other_rules_ignore_flag:
  "is_top_level (BIDSValidator a) path = is_top_level (BIDSValidator b) path"
  "is_session_level (BIDSValidator a) path = is_session_level (BIDSValidator b) path"
  "is_subject_level (BIDSValidator a) path = is_subject_level (BIDSValidator b) path"
  "is_anat (BIDSValidator a) path = is_anat (BIDSValidator b) path"
  "is_dwi (BIDSValidator a) path = is_dwi (BIDSValidator b) path"
  "is_func (BIDSValidator a) path = is_func (BIDSValidator b) path"
  "is_behavioral (BIDSValidator a) path = is_behavioral (BIDSValidator b) path"
  "is_cont (BIDSValidator a) path = is_cont (BIDSValidator b) path"
  "is_field_map (BIDSValidator a) path = is_field_map (BIDSValidator b) path"
  "is_phenotypic (BIDSValidator a) path = is_phenotypic (BIDSValidator b) path"
  unfolding is_top_level_def is_session_level_def is_subject_level_def is_anat_def is_dwi_def
    is_func_def is_behavioral_def is_cont_def is_field_map_def is_phenotypic_def
    anat_top_re_def anat_ses_re_def is_anat_anat_re_def BIDSValidator_def
  by (simp_all only: validator.simps)

text \<open>
  Claim C10: for a path that does not begin with \<^verbatim>\<open>/code/\<close>, \<^verbatim>\<open>/derivatives/\<close>,
  \<^verbatim>\<open>/sourcedata/\<close> or \<^verbatim>\<open>/stimuli/\<close>, \<^verbatim>\<open>is_bids\<close> returns the same for a
  validator built with \<^verbatim>\<open>index_associated=True\<close> and for one built with
  \<^verbatim>\<open>index_associated=False\<close>; and none of the ten rules other than the
  associated-data rule depends on the flag, on any path.
\<close>

theorem flag_read_by_associated_rule_only:
  assumes "\<forall>d\<in>set [''/code/'', ''/derivatives/'', ''/sourcedata/'', ''/stimuli/'']. \<not> prefix d path"
  shows "is_bids (BIDSValidator True) path = is_bids (BIDSValidator False) path
       \<and> (\<forall>r\<in>set [is_top_level, is_session_level, is_subject_level, is_anat, is_dwi, is_func,
                     is_behavioral, is_cont, is_field_map, is_phenotypic].
            \<forall>p. r (BIDSValidator True) p = r (BIDSValidator False) p)"
proof -
  have "search (projr associated_data_re) path = None"
  proof (cases "search (projr associated_data_re) path")
    case (Some tx)
    then obtain t x where "search (projr associated_data_re) path = Some (t, x)" by (cases tx) simp
    from associated_data_sound[OF this] assms show ?thesis by blast
  qed simp
  then have "is_associated_data (BIDSValidator True) path = is_associated_data (BIDSValidator False) path"
    by (simp add: is_associated_data_def associated_data_re_eq bind_res_def BIDSValidator_def)
  then have "is_bids (BIDSValidator True) path = is_bids (BIDSValidator False) path"
    unfolding is_bids_def by (simp only: other_rules_ignore_flag[of True path False])
  moreover have "\<forall>r\<in>set [is_top_level, is_session_level, is_subject_level, is_anat, is_dwi,
                     is_func, is_behavioral, is_cont, is_field_map, is_phenotypic].
            \<forall>p. r (BIDSValidator True) p = r (BIDSValidator False) p"
    using other_rules_ignore_flag[of True _ False] by simp
  ultimately show ?thesis by simp
qed

theorem flag_read_by_associated_rule_only_witness:
  "is_bids (BIDSValidator True) ''/sub-01/anat/sub-01_T1w.nii.gz''
     = is_bids (BIDSValidator False) ''/sub-01/anat/sub-01_T1w.nii.gz''"
  using flag_read_by_associated_rule_only[of "''/sub-01/anat/sub-01_T1w.nii.gz''"]
  by (simp add: prefix_def)

section \<open>The classifier\<close>

text \<open>The examples of the docstrings of the class and of \<^verbatim>\<open>is_bids\<close>.\<close>

lemma docstring_examples:
  "is_bids (BIDSValidator True) ''/sub-01/anat/sub-01_rec-CSD_T1w.nii.gz'' = Inr True"
  "is_bids (BIDSValidator True) ''/sub-01/anat/sub-01_acq-23_rec-CSD_T1w.exe'' = Inr False"
  "is_bids (BIDSValidator True) ''/participants.tsv'' = Inr True"
  "is_bids (BIDSValidator True) ''/sub-01/ses-test/anat/sub-01_ses-test_rec-CSD_run-23_T1w.nii.gz'' = Inr True"
  "is_bids (BIDSValidator True) ''/sub-01/ses-test/sub-01_run-01_dwi.bvec'' = Inr False"
  unfolding rules_def compiled by code_simp+

text \<open>
  Claim C3: for a validator built by the constructor every one of the eleven rules
  returns a boolean on every path, and \<^verbatim>\<open>is_bids\<close> returns true exactly when one of
  them does, in whichever order (\<open>rules\<close> is any list of the eleven) they are
  consulted.
\<close>

theorem is_bids_is_disjunction:
  assumes "set rules = {is_top_level, is_associated_data, is_session_level, is_subject_level,
                        is_anat, is_dwi, is_func, is_behavioral, is_cont, is_field_map,
                        is_phenotypic}"
  shows "(\<forall>r\<in>set rules. \<exists>b. r (BIDSValidator ia) path = Inr b)
       \<and> is_bids (BIDSValidator ia) path = Inr (\<exists>r\<in>set rules. r (BIDSValidator ia) path = Inr True)"
proof -
  from rule_results[of ia path] obtain b1 b2 b3 b4 b5 b6 b7 b8 b9 b10 b11 where b:
    "is_top_level (BIDSValidator ia) path = Inr b1" "is_associated_data (BIDSValidator ia) path = Inr b2"
    "is_session_level (BIDSValidator ia) path = Inr b3" "is_subject_level (BIDSValidator ia) path = Inr b4"
    "is_anat (BIDSValidator ia) path = Inr b5" "is_dwi (BIDSValidator ia) path = Inr b6"
    "is_func (BIDSValidator ia) path = Inr b7" "is_behavioral (BIDSValidator ia) path = Inr b8"
    "is_cont (BIDSValidator ia) path = Inr b9" "is_field_map (BIDSValidator ia) path = Inr b10"
    "is_phenotypic (BIDSValidator ia) path = Inr b11"
    by blast
  from is_bids_Inr[OF b] b show ?thesis
    unfolding assms by simp
qed

theorem is_bids_is_disjunction_witness:
  "is_bids (BIDSValidator True) ''/participants.tsv'' =
     Inr (\<exists>r\<in>set [is_phenotypic, is_field_map, is_cont, is_behavioral, is_func, is_dwi, is_anat,
                     is_subject_level, is_session_level, is_associated_data, is_top_level].
            r (BIDSValidator True) ''/participants.tsv'' = Inr True)"
proof -
  have "set [is_phenotypic, is_field_map, is_cont, is_behavioral, is_func, is_dwi, is_anat,
             is_subject_level, is_session_level, is_associated_data, is_top_level]
        = {is_top_level, is_associated_data, is_session_level, is_subject_level,
           is_anat, is_dwi, is_func, is_behavioral, is_cont, is_field_map, is_phenotypic}"
    by auto
  from is_bids_is_disjunction[OF this, of True "''/participants.tsv''"] show ?thesis by blast
qed








text \<open>
  Claim C5 says that every path below \<^verbatim>\<open>code/\<close>, \<^verbatim>\<open>derivatives/\<close>,
  \<^verbatim>\<open>sourcedata/\<close> or \<^verbatim>\<open>stimuli/\<close> is accepted when \<^verbatim>\<open>index_associated\<close> is true,
  as the docstring of the class does. The pattern of the rule ends in \<^verbatim>\<open>(?:.*)$\<close>, and
  the dot does not match a newline: a path with a newline in the middle of what follows
  the directory is rejected.
\<close>

theorem associated_path_with_newline_rejected:
  "is_bids (BIDSValidator True) (''/code/a'' @ [newline] @ ''b'') = Inr False"
  unfolding rules_def compiled by code_simp

text \<open>
  Claim C6 says that a path accepted by the anatomical rule ends in a suffix followed by
  \<^verbatim>\<open>.nii\<close>, \<^verbatim>\<open>.nii.gz\<close> or \<^verbatim>\<open>.json\<close>. The dots of the pattern
  \<^verbatim>\<open>).(nii.gz|nii|json)$\<close> are not escaped and match any character: a file name with
  no extension at all is accepted.
\<close>

theorem anat_without_extension_accepted:
  "is_bids (BIDSValidator True) ''/sub-01/anat/sub-01_T1w_nii'' = Inr True"
  unfolding rules_def compiled by code_simp

text \<open>
  Claim C7 says that every path below a \<^verbatim>\<open>func/\<close> directory whose file name holds no
  task token is rejected. The rule for associated data accepts whatever lies below
  \<^verbatim>\<open>code/\<close>, \<^verbatim>\<open>derivatives/\<close>, \<^verbatim>\<open>sourcedata/\<close> and \<^verbatim>\<open>stimuli/\<close> when
  \<^verbatim>\<open>index_associated\<close> is true, as the docstring of the class says: a file without a task
  token in a \<^verbatim>\<open>func/\<close> directory of a derivative is accepted.
\<close>

theorem derivative_func_path_without_task_accepted:
  "is_bids (BIDSValidator True) ''/derivatives/sub-01/func/sub-01_bold.nii.gz'' = Inr True
   \<and> file_name ''/derivatives/sub-01/func/sub-01_bold.nii.gz'' = ''sub-01_bold.nii.gz''
   \<and> has_task_token ''sub-01_bold.nii.gz'' = False"
  unfolding rules_def compiled by code_simp

text \<open>
  Claim C7 as amended: a path \<^verbatim>\<open>/sub-<label>/func/<rest>\<close> or
  \<^verbatim>\<open>/sub-<label>/ses-<label>/func/<rest>\<close>, from the root of the dataset, is rejected by
  \<^verbatim>\<open>is_bids\<close> when what follows \<^verbatim>\<open>func/\<close> (the file name, for a file that lies in the
  directory itself) holds no task token, that is, no \<^verbatim>\<open>task-\<close> followed by an
  alphanumeric character; whatever else it holds and whichever flag the validator was
  built with.
\<close>

theorem func_path_without_task_rejected:
  assumes "path = ''/sub-'' @ lab @ ''/func/'' @ f
           \<or> path = ''/sub-'' @ lab @ ''/ses-'' @ s @ ''/func/'' @ f"
    and "list_all (in_cset alnum) lab" and "list_all (in_cset alnum) s"
    and "\<not> has_task_token f"
  shows "is_bids (BIDSValidator ia) path = Inr False"
proof -
  from assms(1) obtain sd where p: "path = ''/sub-'' @ lab @ ''/'' @ sd @ ''func/'' @ f"
    and sd: "sd = [] \<or> sd = ''ses-'' @ s @ ''/''"
    by auto
  from sd assms(3) have "sd = [] \<or> (\<exists>s. list_all (in_cset alnum) s \<and> sd = ''ses-'' @ s @ ''/'')"
    by blast
  from func_shape_rejected[OF assms(2) this assms(4)] p show ?thesis by simp
qed

theorem func_path_without_task_rejected_witness:
  "is_bids (BIDSValidator True) ''/sub-01/func/sub-01_bold.nii.gz'' = Inr False
   \<and> is_bids (BIDSValidator True) ''/sub-01/ses-test/func/sub-01_ses-test_bold.nii.gz'' = Inr False"
  using func_path_without_task_rejected[of "''/sub-01/func/sub-01_bold.nii.gz''" "''01''"
      "''sub-01_bold.nii.gz''" "[]" True]
    func_path_without_task_rejected[of "''/sub-01/ses-test/func/sub-01_ses-test_bold.nii.gz''" "''01''"
      "''sub-01_ses-test_bold.nii.gz''" "''test''" True]
  by (simp add: alnum_def)

lemma mismatch_example:
  "is_bids (BIDSValidator ia) ''/sub-01/anat/sub-02_T1w.nii.gz'' = Inr False"
proof -
  have t: "is_bids (BIDSValidator True) ''/sub-01/anat/sub-02_T1w.nii.gz'' = Inr False"
    unfolding rules_def compiled by code_simp
  have f: "is_bids (BIDSValidator False) ''/sub-01/anat/sub-02_T1w.nii.gz'' = Inr False"
    unfolding rules_def compiled by code_simp
  show ?thesis using t f by (cases ia) simp_all
qed

lemma rejected_by_every_rule:
  assumes "is_bids (BIDSValidator ia) path = Inr False"
  shows "is_top_level (BIDSValidator ia) path = Inr False"
    "is_associated_data (BIDSValidator ia) path = Inr False"
    "is_session_level (BIDSValidator ia) path = Inr False"
    "is_subject_level (BIDSValidator ia) path = Inr False"
    "is_anat (BIDSValidator ia) path = Inr False"
    "is_dwi (BIDSValidator ia) path = Inr False"
    "is_func (BIDSValidator ia) path = Inr False"
    "is_behavioral (BIDSValidator ia) path = Inr False"
    "is_cont (BIDSValidator ia) path = Inr False"
    "is_field_map (BIDSValidator ia) path = Inr False"
    "is_phenotypic (BIDSValidator ia) path = Inr False"
proof -
  from rule_results[of ia path] obtain b1 b2 b3 b4 b5 b6 b7 b8 b9 b10 b11 where b:
    "is_top_level (BIDSValidator ia) path = Inr b1" "is_associated_data (BIDSValidator ia) path = Inr b2"
    "is_session_level (BIDSValidator ia) path = Inr b3" "is_subject_level (BIDSValidator ia) path = Inr b4"
    "is_anat (BIDSValidator ia) path = Inr b5" "is_dwi (BIDSValidator ia) path = Inr b6"
    "is_func (BIDSValidator ia) path = Inr b7" "is_behavioral (BIDSValidator ia) path = Inr b8"
    "is_cont (BIDSValidator ia) path = Inr b9" "is_field_map (BIDSValidator ia) path = Inr b10"
    "is_phenotypic (BIDSValidator ia) path = Inr b11"
    by blast
  from is_bids_Inr[OF b] assms have "\<not> b1" "\<not> b2" "\<not> b3" "\<not> b4" "\<not> b5" "\<not> b6" "\<not> b7" "\<not> b8"
    "\<not> b9" "\<not> b10" "\<not> b11" by simp_all
  with b show "is_top_level (BIDSValidator ia) path = Inr False"
    "is_associated_data (BIDSValidator ia) path = Inr False"
    "is_session_level (BIDSValidator ia) path = Inr False"
    "is_subject_level (BIDSValidator ia) path = Inr False"
    "is_anat (BIDSValidator ia) path = Inr False"
    "is_dwi (BIDSValidator ia) path = Inr False"
    "is_func (BIDSValidator ia) path = Inr False"
    "is_behavioral (BIDSValidator ia) path = Inr False"
    "is_cont (BIDSValidator ia) path = Inr False"
    "is_field_map (BIDSValidator ia) path = Inr False"
    "is_phenotypic (BIDSValidator ia) path = Inr False"
    by simp_all
qed

text \<open>
  Claim C8 says that a path accepted by a rule below a subject directory carries the label
  of its subject directory in its file name as well. The patterns ask for it with the
  backreference \<^verbatim>\<open>\1\<close>: what the rule reads after the directories starts with the text
  \<^verbatim>\<open>sub-<label>\<close> of the subject directory (lemma \<open>rules_subject_repeated\<close>), and
  \<^verbatim>\<open>/sub-01/anat/sub-02_T1w.nii.gz\<close> is rejected (lemma \<open>mismatch_example\<close>). But the
  patterns of \<^verbatim>\<open>is_session_level\<close> for the files of a modality go on without a
  separator, \<^verbatim>\<open>\1(_\2)?task-\<close> where the pattern of \<^verbatim>\<open>is_func\<close> has
  \<^verbatim>\<open>\1(_\2)?_task-\<close>: below \<^verbatim>\<open>/sub-01/\<close> the file name
  \<^verbatim>\<open>sub-01task-rest_bold.json\<close>, whose subject label is \<^verbatim>\<open>01task\<close>, is accepted.
  The unescaped dot of claim C6 lets \<^verbatim>\<open>/sub-01/sub-01_dwi/json\<close> through as well, a path
  whose file name \<^verbatim>\<open>json\<close> names no subject.
\<close>

theorem session_level_accepts_other_subject_label:
  "is_session_level (BIDSValidator True) ''/sub-01/sub-01task-rest_bold.json'' = Inr True
   \<and> is_bids (BIDSValidator True) ''/sub-01/sub-01task-rest_bold.json'' = Inr True
   \<and> token_label ''/sub-'' ''/sub-01/sub-01task-rest_bold.json'' = Some ''01''
   \<and> token_label ''sub-'' (file_name ''/sub-01/sub-01task-rest_bold.json'') = Some ''01task''
   \<and> is_bids (BIDSValidator True) ''/sub-01/sub-01_dwi/json'' = Inr True
   \<and> file_name ''/sub-01/sub-01_dwi/json'' = ''json''"
  unfolding rules_def compiled by code_simp

section \<open>The conditional match and the two sessions\<close>

lemma two_level_conditional:
  assumes ge: "3 \<le> groups p" and s: "search p path = Some (t, x)"
    and m: "two_level_match MD T path x"
  shows "conditional_match p path =
           Inr (snd x 2 = None \<or> (\<exists>s. snd x 2 = Some s \<and> snd x 3 = Some (''_'' @ s)))"
proof -
  from m have "snd x 2 = None \<and> snd x 3 = None
      \<or> (\<exists>s. snd x 2 = Some (''ses-'' @ s)
              \<and> (snd x 3 = None \<or> snd x 3 = Some (''_ses-'' @ s)))"
    unfolding two_level_match_def by (elim exE conjE disjE) simp_all
  then consider (a) "snd x 2 = None" "snd x 3 = None"
    | (b) s where "snd x 2 = Some (''ses-'' @ s)" "snd x 3 = None"
    | (c) s where "snd x 2 = Some (''ses-'' @ s)" "snd x 3 = Some (''_ses-'' @ s)"
    by (elim exE conjE disjE)
  then show ?thesis
  proof cases
    case a
    then show ?thesis by (simp add: conditional_match_eq[OF ge] s group_text_def)
  next
    case b
    then show ?thesis by (simp add: conditional_match_eq[OF ge] s group_text_def)
  next
    case c
    then show ?thesis by (simp add: conditional_match_eq[OF ge] s group_text_def)
  qed
qed

lemma two_level_compiled:
  assumes "e \<in> set [is_session_level_scans_re, func_ses_re, anat_ses_re (BIDSValidator ia),
                     dwi_ses_re, is_anat_anat_re (BIDSValidator ia), is_dwi_anat_re,
                     is_field_map_anat_re, func_re, func_beh, cont_re]"
  shows "e = Inr (projr e) \<and> 3 \<le> groups (projr e) \<and>
         (\<forall>path t x. search (projr e) path = Some (t, x) \<longrightarrow> (\<exists>MD T. two_level_match MD T path x))"
proof -
  from assms consider "e = is_session_level_scans_re" | "e = func_ses_re"
    | "e = anat_ses_re (BIDSValidator ia)" | "e = dwi_ses_re"
    | "e = is_anat_anat_re (BIDSValidator ia)" | "e = is_dwi_anat_re"
    | "e = is_field_map_anat_re" | "e = func_re" | "e = func_beh" | "e = cont_re"
    by auto
  then show ?thesis
  proof cases
    case 1
    have "e = Inr (projr e)" unfolding 1 by (simp add: is_session_level_scans_re_eq)
    then show ?thesis using groups_ge3(1) scans_match unfolding 1 by blast
  next
    case 2
    have "e = Inr (projr e)" unfolding 2 by (simp add: func_ses_re_eq)
    then show ?thesis using groups_ge3(2) func_ses_match unfolding 2 by blast
  next
    case 3
    have "e = Inr (projr e)" unfolding 3 by (simp add: anat_ses_re_eq)
    then show ?thesis using groups_ge3(3)[of ia] anat_ses_match[of ia] unfolding 3 by blast
  next
    case 4
    have "e = Inr (projr e)" unfolding 4 by (simp add: dwi_ses_re_eq)
    then show ?thesis using groups_ge3(4) dwi_ses_match unfolding 4 by blast
  next
    case 5
    have "e = Inr (projr e)" unfolding 5 by (simp add: is_anat_anat_re_eq)
    then show ?thesis using groups_ge3(5)[of ia] anat_match[of ia] unfolding 5 by blast
  next
    case 6
    have "e = Inr (projr e)" unfolding 6 by (simp add: is_dwi_anat_re_eq)
    then show ?thesis using groups_ge3(6) dwi_match unfolding 6 by blast
  next
    case 7
    have "e = Inr (projr e)" unfolding 7 by (simp add: is_field_map_anat_re_eq)
    then show ?thesis using groups_ge3(7) field_map_match unfolding 7 by blast
  next
    case 8
    have "e = Inr (projr e)" unfolding 8 by (simp add: func_re_eq)
    then show ?thesis using groups_ge3(8) task_matches(1) unfolding 8 by blast
  next
    case 9
    have "e = Inr (projr e)" unfolding 9 by (simp add: func_beh_eq)
    then show ?thesis using groups_ge3(9) task_matches(2) unfolding 9 by blast
  next
    case 10
    have "e = Inr (projr e)" unfolding 10 by (simp add: cont_re_eq)
    then show ?thesis using groups_ge3(10) task_matches(3) unfolding 10 by blast
  qed
qed

text \<open>
  Claim C1 says that a rule with a subject and a session level accepts a structural match
  if and only if the session of the file name is absent or equal to the session of the
  directory, and that \<^verbatim>\<open>/sub-01/ses-test/anat/sub-01_T1w.nii.gz\<close> is therefore
  accepted. In the code it is the session of the directory that may be absent:
  \<^verbatim>\<open>conditional_match\<close> tests \<^verbatim>\<open>(match[1] == match[2][1:]) | (not match[1])\<close>, and
  \<^verbatim>\<open>match[1]\<close> is the session directory. A path whose directory gives a session that
  the file name omits is rejected, as the docstring of \<^verbatim>\<open>is_bids\<close> says of
  \<^verbatim>\<open>/sub-01/ses-test/sub-01_run-01_dwi.bvec\<close> ("missed session in the filename").
\<close>

theorem session_omitted_in_filename_rejected:
  "is_bids (BIDSValidator True) ''/sub-01/ses-test/anat/sub-01_T1w.nii.gz'' = Inr False"
  unfolding rules_def compiled by code_simp

text \<open>
  Claim C1 as amended: for each of the ten patterns with a subject and a session level
  (\<open>e\<close>), and every path that the pattern matches (\<open>search\<close> finds the match \<open>x\<close>),
  \<^verbatim>\<open>conditional_match\<close> accepts if and only if the session directory (group 2) is
  absent, or the session of the file name (group 3) is present and is the session of the
  directory after its underscore. The path \<^verbatim>\<open>/sub-01/ses-test/anat/sub-01_T1w.nii.gz\<close>
  is rejected by the anatomical rule and by \<^verbatim>\<open>is_bids\<close>.
\<close>

theorem two_level_rule_accepts_iff:
  assumes "e \<in> set [is_session_level_scans_re, func_ses_re, anat_ses_re (BIDSValidator ia),
                     dwi_ses_re, is_anat_anat_re (BIDSValidator ia), is_dwi_anat_re,
                     is_field_map_anat_re, func_re, func_beh, cont_re]"
    and "search (projr e) path = Some (t, x)"
  shows "(\<exists>p. e = Inr p \<and>
            conditional_match p path =
              Inr (snd x 2 = None \<or> (\<exists>s. snd x 2 = Some s \<and> snd x 3 = Some (''_'' @ s))))
       \<and> is_anat (BIDSValidator True) ''/sub-01/ses-test/anat/sub-01_T1w.nii.gz'' = Inr False
       \<and> is_bids (BIDSValidator True) ''/sub-01/ses-test/anat/sub-01_T1w.nii.gz'' = Inr False"
proof -
  from two_level_compiled[OF assms(1)] assms(2) obtain MD T where
    e: "e = Inr (projr e)" and ge: "3 \<le> groups (projr e)" and m: "two_level_match MD T path x"
    by blast
  from two_level_conditional[OF ge assms(2) m] e
  have "\<exists>p. e = Inr p \<and>
            conditional_match p path =
              Inr (snd x 2 = None \<or> (\<exists>s. snd x 2 = Some s \<and> snd x 3 = Some (''_'' @ s)))"
    by blast
  moreover have b: "is_bids (BIDSValidator True) ''/sub-01/ses-test/anat/sub-01_T1w.nii.gz'' = Inr False"
    unfolding rules_def compiled by code_simp
  moreover note rejected_by_every_rule(5)[OF b]
  ultimately show ?thesis by blast
qed

theorem two_level_rule_accepts_iff_witness:
  "conditional_match (projr (is_anat_anat_re (BIDSValidator True)))
     ''/sub-01/ses-test/anat/sub-01_T1w.nii.gz'' = Inr False
   \<and> conditional_match (projr (is_anat_anat_re (BIDSValidator True)))
     ''/sub-01/ses-test/anat/sub-01_ses-test_T1w.nii.gz'' = Inr True
   \<and> conditional_match (projr (is_anat_anat_re (BIDSValidator True)))
     ''/sub-01/anat/sub-01_T1w.nii.gz'' = Inr True"
proof -
  let ?e = "is_anat_anat_re (BIDSValidator True)"
  have mem: "?e \<in> set [is_session_level_scans_re, func_ses_re, anat_ses_re (BIDSValidator True),
                     dwi_ses_re, is_anat_anat_re (BIDSValidator True), is_dwi_anat_re,
                     is_field_map_anat_re, func_re, func_beh, cont_re]" by simp
  have "map_option (\<lambda>(t, x). (snd x 2, snd x 3))
          (search (projr ?e) ''/sub-01/ses-test/anat/sub-01_T1w.nii.gz'')
        = Some (Some ''ses-test'', None)"
    unfolding is_anat_anat_re_eq by code_simp
  then obtain t1 x1 where 1: "search (projr ?e) ''/sub-01/ses-test/anat/sub-01_T1w.nii.gz'' = Some (t1, x1)"
    "snd x1 2 = Some ''ses-test''" "snd x1 3 = None" by auto
  have "map_option (\<lambda>(t, x). (snd x 2, snd x 3))
          (search (projr ?e) ''/sub-01/ses-test/anat/sub-01_ses-test_T1w.nii.gz'')
        = Some (Some ''ses-test'', Some ''_ses-test'')"
    unfolding is_anat_anat_re_eq by code_simp
  then obtain t2 x2 where 2: "search (projr ?e) ''/sub-01/ses-test/anat/sub-01_ses-test_T1w.nii.gz'' = Some (t2, x2)"
    "snd x2 2 = Some ''ses-test''" "snd x2 3 = Some ''_ses-test''" by auto
  have "map_option (\<lambda>(t, x). (snd x 2, snd x 3))
          (search (projr ?e) ''/sub-01/anat/sub-01_T1w.nii.gz'')
        = Some (None, None)"
    unfolding is_anat_anat_re_eq by code_simp
  then obtain t3 x3 where 3: "search (projr ?e) ''/sub-01/anat/sub-01_T1w.nii.gz'' = Some (t3, x3)"
    "snd x3 2 = None" "snd x3 3 = None" by auto
  from two_level_rule_accepts_iff[OF mem 1(1)] two_level_rule_accepts_iff[OF mem 2(1)]
    two_level_rule_accepts_iff[OF mem 3(1)] 1(2,3) 2(2,3) 3(2,3)
  show ?thesis by auto
qed

section \<open>Two session labels\<close>


















end
